theory Spec2Isabelle
  imports Complex_Main "HOL-Library.Sublist"
begin

section \<open>ECMAScript values as the semantic validator sees them\<close>

subsection \<open>Strings\<close>

text \<open>
  A string is a sequence of UTF-16 code units, each a number below \<open>65536\<close>; \<open>lit\<close>
  gives the string a literal of the source text denotes. Equality of strings, membership
  in a \<^verbatim>\<open>Set\<close> and the test \<^verbatim>\<open>s.length === 0\<close> are equality of lists, membership
  and the test for the empty list.
\<close>

type_synonym jstring = "nat list"

definition lit :: "string \<Rightarrow> jstring" where
  "lit s = map of_char s"

text \<open>
  \<^verbatim>\<open>String.prototype.trim\<close> removes from both ends the code units of white space and
  of line terminators: TAB, LF, VT, FF, CR, SPACE, NO-BREAK SPACE, OGHAM SPACE MARK,
  EN QUAD to HAIR SPACE, LINE SEPARATOR, PARAGRAPH SEPARATOR, NARROW NO-BREAK SPACE,
  MEDIUM MATHEMATICAL SPACE, IDEOGRAPHIC SPACE and ZERO WIDTH NO-BREAK SPACE.
\<close>

definition isWhiteSpace :: "nat \<Rightarrow> bool" where
  "isWhiteSpace c = (c \<in> set [0x0009, 0x000A, 0x000B, 0x000C, 0x000D, 0x0020, 0x00A0, 0x1680,
      0x2000, 0x2001, 0x2002, 0x2003, 0x2004, 0x2005, 0x2006, 0x2007, 0x2008, 0x2009, 0x200A,
      0x2028, 0x2029, 0x202F, 0x205F, 0x3000, 0xFEFF])"

definition trim :: "jstring \<Rightarrow> jstring" where
  "trim s = rev (dropWhile isWhiteSpace (rev (dropWhile isWhiteSpace s)))"

text \<open>
  The test \<^verbatim>\<open>/^[a-z]{2}(-[a-z0-9]+)?$/i.test(s)\<close>. Without the \<^verbatim>\<open>u\<close> flag, a code
  unit from 128 upwards never matches a class of Basic Latin letters under \<^verbatim>\<open>i\<close>, so
  the letters are \<open>A\<close> to \<open>Z\<close> and \<open>a\<close> to \<open>z\<close>; \<open>$\<close> matches at the end of
  the string only.
\<close>

definition isAlpha :: "nat \<Rightarrow> bool" where
  "isAlpha c = ((0x41 \<le> c \<and> c \<le> 0x5A) \<or> (0x61 \<le> c \<and> c \<le> 0x7A))"

definition isAlnum :: "nat \<Rightarrow> bool" where
  "isAlnum c = (isAlpha c \<or> (0x30 \<le> c \<and> c \<le> 0x39))"

fun bcp47_test :: "jstring \<Rightarrow> bool" where
  "bcp47_test (a # b # rest) =
     (isAlpha a \<and> isAlpha b \<and>
      (case rest of [] \<Rightarrow> True
       | d # sub \<Rightarrow> d = 0x2D \<and> sub \<noteq> [] \<and> list_all isAlnum sub))"
| "bcp47_test _ = False"

text \<open>\<^verbatim>\<open>xs.join(sep)\<close> on an array of strings.\<close>

fun join :: "jstring \<Rightarrow> jstring list \<Rightarrow> jstring" where
  "join sep [] = []"
| "join sep [x] = x"
| "join sep (x # y # ys) = x @ sep @ join sep (y # ys)"

text \<open>Decimal digits of a natural number, as template literals print an index.\<close>

fun show_nat :: "nat \<Rightarrow> jstring" where
  "show_nat n = (if n < 10 then [0x30 + n] else show_nat (n div 10) @ [0x30 + n mod 10])"

declare show_nat.simps [simp del]

subsection \<open>Numbers\<close>

text \<open>
  A Number is an IEEE-754 binary64 value. \<open>Fin q\<close> is the finite double whose exact
  value is the rational \<open>q\<close>; the two zeros are identified, since no operation of the
  validator tells them apart (it never divides, and \<open>-0 < 0\<close> is false,
  \<open>String(-0)\<close> is \<open>0\<close>, \<open>(-0).toFixed(6)\<close> is \<open>0.000000\<close>).
  Arithmetic computes the exact rational result and rounds it to the nearest double,
  ties to even, overflowing to an infinity.
\<close>

datatype jsnum = NaN | PInf | NInf | Fin rat

definition pow2 :: "int \<Rightarrow> rat" where
  "pow2 e = (if 0 \<le> e then 2 ^ nat e else 1 / 2 ^ nat (- e))"

text \<open>
  \<open>binade n lo hi a\<close> is the largest exponent \<open>e\<close> in \<open>lo..hi\<close> with
  \<open>2 ^ e \<le> a\<close> (and \<open>lo\<close> when there is none), found by bisection in at most
  \<open>n\<close> steps.
\<close>

fun binade :: "nat \<Rightarrow> int \<Rightarrow> int \<Rightarrow> rat \<Rightarrow> int" where
  "binade 0 lo hi a = lo"
| "binade (Suc n) lo hi a =
     (if hi \<le> lo then lo
      else let mid = (lo + hi + 1) div 2
           in if pow2 mid \<le> a then binade n mid hi a else binade n lo (mid - 1) a)"

definition tie_even :: "rat \<Rightarrow> int \<Rightarrow> int" where
  "tie_even q f = (if q - of_int f < 1 / 2 then f
                   else if 1 / 2 < q - of_int f then f + 1
                   else if even f then f else f + 1)"

definition round_half_even :: "rat \<Rightarrow> int" where
  "round_half_even q = tie_even q \<lfloor>q\<rfloor>"

definition round_ulp :: "rat \<Rightarrow> rat \<Rightarrow> rat" where
  "round_ulp a u = of_int (round_half_even (a / u)) * u"

definition overflow64 :: "bool \<Rightarrow> rat \<Rightarrow> jsnum" where
  "overflow64 neg r = (if 2 ^ 1024 \<le> r then (if neg then NInf else PInf)
                       else Fin (if neg then - r else r))"

text \<open>
  Rounding to binary64: the unit in the last place of a value in binade \<open>e\<close> is
  \<open>2 ^ (e - 52)\<close>, with the exponent held at \<open>-1022\<close> for subnormal values.
\<close>

definition round64 :: "rat \<Rightarrow> jsnum" where
  "round64 q = (if q = 0 then Fin 0
     else overflow64 (q < 0) (round_ulp \<bar>q\<bar> (pow2 (binade 12 (- 1022) 1023 \<bar>q\<bar> - 52))))"

fun num_add :: "jsnum \<Rightarrow> jsnum \<Rightarrow> jsnum" where
  "num_add NaN y = NaN"
| "num_add x NaN = NaN"
| "num_add PInf NInf = NaN"
| "num_add NInf PInf = NaN"
| "num_add PInf y = PInf"
| "num_add x PInf = PInf"
| "num_add NInf y = NInf"
| "num_add x NInf = NInf"
| "num_add (Fin a) (Fin b) = round64 (a + b)"

fun num_neg :: "jsnum \<Rightarrow> jsnum" where
  "num_neg NaN = NaN"
| "num_neg PInf = NInf"
| "num_neg NInf = PInf"
| "num_neg (Fin a) = Fin (- a)"

definition num_sub :: "jsnum \<Rightarrow> jsnum \<Rightarrow> jsnum" where
  "num_sub x y = num_add x (num_neg y)"

fun Math_abs :: "jsnum \<Rightarrow> jsnum" where
  "Math_abs NaN = NaN"
| "Math_abs PInf = PInf"
| "Math_abs NInf = PInf"
| "Math_abs (Fin a) = Fin \<bar>a\<bar>"

text \<open>The relational operators on Numbers: every comparison with \<open>NaN\<close> is false.\<close>

fun num_lt :: "jsnum \<Rightarrow> jsnum \<Rightarrow> bool" where
  "num_lt NaN y = False"
| "num_lt x NaN = False"
| "num_lt PInf y = False"
| "num_lt x PInf = True"
| "num_lt x NInf = False"
| "num_lt NInf y = True"
| "num_lt (Fin a) (Fin b) = (a < b)"

fun num_le :: "jsnum \<Rightarrow> jsnum \<Rightarrow> bool" where
  "num_le NaN y = False"
| "num_le x NaN = False"
| "num_le x PInf = True"
| "num_le PInf y = False"
| "num_le NInf y = True"
| "num_le x NInf = False"
| "num_le (Fin a) (Fin b) = (a \<le> b)"

definition num_gt :: "jsnum \<Rightarrow> jsnum \<Rightarrow> bool" where
  "num_gt x y = num_lt y x"

definition num_ge :: "jsnum \<Rightarrow> jsnum \<Rightarrow> bool" where
  "num_ge x y = num_le y x"

text \<open>
  \<^verbatim>\<open>Number.isInteger\<close> on a Number: finite and without fractional part.
\<close>

fun num_isInteger :: "jsnum \<Rightarrow> bool" where
  "num_isInteger (Fin a) = (of_int \<lfloor>a\<rfloor> = a)"
| "num_isInteger _ = False"

subsection \<open>Printing numbers\<close>

text \<open>
  \<open>Number::toString\<close> reaches the validator only with integral values (the bounds
  \<open>min\<close> and \<open>max\<close> once both passed \<^verbatim>\<open>Number.isInteger\<close>, and the
  fallback of \<open>toFixed\<close> from \<open>10 ^ 21\<close> upwards, where every double is integral).
  It takes the fewest significant digits \<open>s\<close>, \<open>k\<close> of them, such that
  \<open>s * 10 ^ (n - k)\<close> still rounds to the same double, and of two such \<open>s\<close> the one
  nearer the value. For an integral value \<open>k \<le> n\<close>. When \<open>n \<le> 21\<close> it prints the
  digits of \<open>s\<close> followed by \<open>n - k\<close> zeros, that is, the decimal digits of
  \<open>s * 10 ^ (n - k)\<close>; otherwise it prints the exponent form. So \<open>2 ^ 63\<close> prints as
  \<open>9223372036854776000\<close>.
\<close>

definition rounds_to :: "nat \<Rightarrow> nat \<Rightarrow> bool" where
  "rounds_to v x = (round64 (of_nat v) = Fin (of_nat x))"

definition nearer :: "nat \<Rightarrow> nat \<Rightarrow> nat \<Rightarrow> nat \<Rightarrow> nat" where
  "nearer x p lo hi = (if x - lo < hi - x then lo else if hi - x < x - lo then hi
                       else if even (lo div p) then lo else hi)"

definition pick_digits :: "nat \<Rightarrow> nat \<Rightarrow> nat \<Rightarrow> nat \<Rightarrow> nat option" where
  "pick_digits x p lo hi =
     (if rounds_to lo x then (if rounds_to hi x then Some (nearer x p lo hi) else Some lo)
      else if rounds_to hi x then Some hi else None)"

definition digits_candidate :: "nat \<Rightarrow> nat \<Rightarrow> nat option" where
  "digits_candidate x k =
     (let p = 10 ^ (length (show_nat x) - k)
      in pick_digits x p (x div p * p) (x div p * p + p))"

fun shortest_from :: "nat \<Rightarrow> nat \<Rightarrow> nat \<Rightarrow> nat" where
  "shortest_from 0 k x = x"
| "shortest_from (Suc n) k x =
     (case digits_candidate x k of Some v \<Rightarrow> v | None \<Rightarrow> shortest_from n (k + 1) x)"

definition strip_zeros :: "jstring \<Rightarrow> jstring" where
  "strip_zeros ds = rev (dropWhile (\<lambda>c. c = 0x30) (rev ds))"

definition exponent_form :: "jstring \<Rightarrow> jstring" where
  "exponent_form ds =
     take 1 ds @ (if strip_zeros (drop 1 ds) = [] then [] else lit ''.'' @ strip_zeros (drop 1 ds))
       @ lit ''e+'' @ show_nat (length ds - 1)"

definition digits_toString :: "jstring \<Rightarrow> jstring" where
  "digits_toString ds = (if length ds \<le> 21 then ds else exponent_form ds)"

definition nat_toString :: "nat \<Rightarrow> jstring" where
  "nat_toString x = digits_toString (show_nat (shortest_from 17 1 x))"

fun Number_toString :: "jsnum \<Rightarrow> jstring" where
  "Number_toString NaN = lit ''NaN''"
| "Number_toString PInf = lit ''Infinity''"
| "Number_toString NInf = lit ''-Infinity''"
| "Number_toString (Fin q) = (if q < 0 then lit ''-'' else []) @ nat_toString (nat \<lfloor>\<bar>q\<bar>\<rfloor>)"

text \<open>
  \<^verbatim>\<open>x.toFixed(f)\<close> for \<open>1 \<le> f\<close>: a value that is not finite prints as
  \<open>Number::toString\<close> does; the sign is split off; from \<open>10 ^ 21\<close> upwards the
  magnitude prints as \<open>Number::toString\<close> does; otherwise \<open>n\<close> is the integer
  nearest to the magnitude times \<open>10 ^ f\<close> (the larger of two), padded with zeros to
  \<open>f + 1\<close> digits at least, and the point goes before the last \<open>f\<close> digits.
\<close>

definition fixed_point :: "nat \<Rightarrow> jstring \<Rightarrow> jstring" where
  "fixed_point f m = take (length m - f) m @ lit ''.'' @ drop (length m - f) m"

definition pad_zeros :: "nat \<Rightarrow> jstring \<Rightarrow> jstring" where
  "pad_zeros k m = replicate (k - length m) 0x30 @ m"

definition fixed_digits :: "nat \<Rightarrow> rat \<Rightarrow> jstring" where
  "fixed_digits f a = fixed_point f (pad_zeros (f + 1) (show_nat (nat \<lfloor>a * 10 ^ f + 1 / 2\<rfloor>)))"

fun toFixed :: "nat \<Rightarrow> jsnum \<Rightarrow> jstring" where
  "toFixed f (Fin q) = (if q < 0 then lit ''-'' else []) @
     (if 10 ^ 21 \<le> \<bar>q\<bar> then nat_toString (nat \<lfloor>\<bar>q\<bar>\<rfloor>) else fixed_digits f \<bar>q\<bar>)"
| "toFixed f x = Number_toString x"

subsection \<open>Values\<close>

text \<open>
  What \<^verbatim>\<open>YAML.parse\<close> returns: null, booleans, numbers, strings, arrays and plain
  objects (keys in document order; the parser rejects a repeated key). \<open>JUndefined\<close> is
  what reading an absent property yields.
\<close>

datatype jsval =
    JUndefined
  | JNull
  | JBool bool
  | JNum jsnum
  | JStr jstring
  | JArr "jsval list"
  | JObj "(jstring \<times> jsval) list"

fun typeof :: "jsval \<Rightarrow> string" where
  "typeof JUndefined = ''undefined''"
| "typeof JNull = ''object''"
| "typeof (JBool b) = ''boolean''"
| "typeof (JNum x) = ''number''"
| "typeof (JStr s) = ''string''"
| "typeof (JArr xs) = ''object''"
| "typeof (JObj kvs) = ''object''"

fun Array_isArray :: "jsval \<Rightarrow> bool" where
  "Array_isArray (JArr xs) = True"
| "Array_isArray _ = False"

definition isObject :: "jsval \<Rightarrow> bool" where
  "isObject x = (x \<noteq> JNull \<and> typeof x = ''object'' \<and> \<not> Array_isArray x)"

text \<open>
  Property read \<^verbatim>\<open>o.k\<close> (and \<^verbatim>\<open>o[k]\<close>). The validator reads properties only
  of values that passed \<open>isObject\<close>, and none of the names it reads is inherited from
  \<^verbatim>\<open>Object.prototype\<close>.
\<close>

fun get :: "jsval \<Rightarrow> jstring \<Rightarrow> jsval" where
  "get (JObj kvs) k = (case map_of kvs k of Some v \<Rightarrow> v | None \<Rightarrow> JUndefined)"
| "get _ k = JUndefined"

fun Object_keys :: "jsval \<Rightarrow> jstring list" where
  "Object_keys (JObj kvs) = remdups (map fst kvs)"
| "Object_keys _ = []"

text \<open>
  The payload of a value whose type the code has just tested: \<open>the_str\<close> behind
  \<^verbatim>\<open>typeof x === "string"\<close>, \<open>the_num\<close> behind \<^verbatim>\<open>typeof x === "number"\<close> or
  \<^verbatim>\<open>Number.isInteger(x)\<close>, \<open>the_arr\<close> behind \<^verbatim>\<open>Array.isArray(x)\<close>. The
  source's \<^verbatim>\<open>||\<close> and \<^verbatim>\<open>&&\<close> short-circuit, so the second operand is read only
  where the guard holds; elsewhere its value has no effect on the disjunction.
\<close>

fun the_str :: "jsval \<Rightarrow> jstring" where
  "the_str (JStr s) = s"
| "the_str _ = []"

fun the_num :: "jsval \<Rightarrow> jsnum" where
  "the_num (JNum x) = x"
| "the_num _ = NaN"

fun the_arr :: "jsval \<Rightarrow> jsval list" where
  "the_arr (JArr xs) = xs"
| "the_arr _ = []"

fun Number_isInteger :: "jsval \<Rightarrow> bool" where
  "Number_isInteger (JNum x) = num_isInteger x"
| "Number_isInteger _ = False"

fun Number_isNaN :: "jsval \<Rightarrow> bool" where
  "Number_isNaN (JNum x) = (x = NaN)"
| "Number_isNaN _ = False"

text \<open>
  \<^verbatim>\<open>Number(x)\<close>; the validator applies it to values of type number only, where it is
  the identity. The conversions of strings and objects are not modelled.
\<close>

fun Number :: "jsval \<Rightarrow> jsnum" where
  "Number (JNum x) = x"
| "Number JNull = Fin 0"
| "Number (JBool b) = Fin (if b then 1 else 0)"
| "Number _ = NaN"

section \<open>The semantic validator\<close>

subsection \<open>Constants and helpers of the script\<close>

definition RULESET_GLOB :: jstring where
  "RULESET_GLOB = lit ''rules/**/ruleset.y{a,}ml''"

definition SELECTORS_PATH :: jstring where
  "SELECTORS_PATH = lit ''schema/selectors.yml''"

definition ALLOWED_OPS :: "jstring list" where
  "ALLOWED_OPS = [lit ''count'', lit ''term_density'', lit ''llm'']"

definition ALLOWED_SEVERITIES :: "jstring list" where
  "ALLOWED_SEVERITIES = [lit ''low'', lit ''medium'', lit ''high'']"

definition ALLOWED_DIMENSIONS :: "jstring list" where
  "ALLOWED_DIMENSIONS =
     [lit ''structure'', lit ''answerability'', lit ''neutrality'', lit ''topical_focus'', lit ''entity_binding'']"

definition REQUIRED_WEIGHTS :: "jstring list" where
  "REQUIRED_WEIGHTS =
     [lit ''structure'', lit ''answerability'', lit ''neutrality'', lit ''topical_focus'', lit ''entity_binding'']"

text \<open>The literal \<^verbatim>\<open>1e-4\<close>: the double nearest to one ten-thousandth.\<close>

definition tolerance :: jsnum where
  "tolerance = round64 (1 / 10000)"

definition approxEquals :: "jsnum \<Rightarrow> jsnum \<Rightarrow> jsnum \<Rightarrow> bool" where
  "approxEquals a b eps = num_le (Math_abs (num_sub a b)) eps"

record diag =
  "file" :: jstring
  path :: jstring
  message :: jstring

definition fail :: "diag list \<Rightarrow> jstring \<Rightarrow> jstring \<Rightarrow> jstring \<Rightarrow> diag list" where
  "fail errors f p m = errors @ [\<lparr>file = f, path = p, message = m\<rparr>]"

text \<open>A string between single quotes, as the templates \<^verbatim>\<open>'${x}'\<close> print it.\<close>

definition quoted :: "jstring \<Rightarrow> jstring" where
  "quoted s = [0x27] @ s @ [0x27]"

subsection \<open>The state of one file's validation\<close>

text \<open>
  The arrays \<open>errors\<close> and \<open>warnings\<close>, the set \<open>seenIds\<close>, and the calls the
  validation makes to the file system, in order. The surroundings are the file's name,
  the selector names loaded at start, which paths \<^verbatim>\<open>fs.access\<close> resolves, and the
  two case mappings \<^verbatim>\<open>String.prototype.toLowerCase\<close> and \<^verbatim>\<open>toUpperCase\<close>. The
  case mappings are given by the Unicode tables of the runtime, which are no part of the
  source: they are parameters here, and every property below holds whatever they are.
\<close>

datatype fs_call = ReadFile jstring | Access jstring

record vstate =
  errors :: "diag list"
  warnings :: "jstring list"
  seenIds :: "jstring set"
  calls :: "fs_call list"

record env =
  cur_file :: jstring
  allowedSelectors :: "jstring set"
  fs_access :: "jstring \<Rightarrow> bool"
  toLowerCase :: "jstring \<Rightarrow> jstring"
  toUpperCase :: "jstring \<Rightarrow> jstring"

definition err :: "env \<Rightarrow> jstring \<Rightarrow> jstring \<Rightarrow> vstate \<Rightarrow> vstate" where
  "err E p m s = s\<lparr>errors := fail (errors s) (cur_file E) p m\<rparr>"

definition warn :: "jstring \<Rightarrow> vstate \<Rightarrow> vstate" where
  "warn w s = s\<lparr>warnings := warnings s @ [w]\<rparr>"

subsection \<open>Top-level checks\<close>

definition unusual_warning :: "jstring \<Rightarrow> jstring \<Rightarrow> jstring" where
  "unusual_warning f lang = lit ''WARN '' @ f @ lit '' language: '' @ quoted lang @
     lit '' unusual formatting; consider '' @ quoted (lit ''de'') @ lit '' or '' @ quoted (lit ''en'') @ lit ''.''"

definition bcp47_warning :: "jstring \<Rightarrow> jstring \<Rightarrow> jstring" where
  "bcp47_warning f lang = lit ''WARN '' @ f @ lit '' language: '' @ quoted lang @
     lit '' doesn'' @ [0x27] @ lit ''t look like a BCP-47 code.''"

definition not_string_warning :: "jstring \<Rightarrow> jstring" where
  "not_string_warning f = lit ''WARN '' @ f @ lit '' language: should be a string (e.g., '' @
     [0x22] @ lit ''de'' @ [0x22] @ lit '').''"

definition check_language :: "env \<Rightarrow> jsval \<Rightarrow> vstate \<Rightarrow> vstate" where
  "check_language E ruleset s =
     (if typeof (get ruleset (lit ''language'')) = ''string'' then
        (let lang = the_str (get ruleset (lit ''language''));
             normalized = toLowerCase E (trim lang);
             s1 = (if lang \<noteq> normalized \<and> lang \<noteq> toUpperCase E normalized
                   then warn (unusual_warning (cur_file E) lang) s
                   else s)
         in if \<not> bcp47_test (trim lang)
            then warn (bcp47_warning (cur_file E) lang) s1
            else s1)
      else if get ruleset (lit ''language'') \<noteq> JUndefined then
        warn (not_string_warning (cur_file E)) s
      else s)"

text \<open>
  The sum warning; before \<open>1e-4\<close> the source text has the two characters
  \<open>U+00C2\<close> and \<open>U+00B1\<close>.
\<close>

definition sum_warning :: "jstring \<Rightarrow> jsnum \<Rightarrow> jstring" where
  "sum_warning f sum_v = lit ''WARN '' @ f @ lit '' weights: sum is '' @ toFixed 6 sum_v @
     lit '', expected ~1.0 ('' @ [0xC2, 0xB1] @ lit ''1e-4).''"

definition missing_warning :: "jstring \<Rightarrow> jstring list \<Rightarrow> jstring" where
  "missing_warning f missing =
     lit ''WARN '' @ f @ lit '' weights: missing or non-numeric keys: '' @ join (lit '', '') missing"

definition weights_sum :: "jsval \<Rightarrow> jsnum" where
  "weights_sum w = foldl (\<lambda>acc k. num_add acc (Number (get w k))) (Fin 0) REQUIRED_WEIGHTS"

definition check_weights :: "env \<Rightarrow> jsval \<Rightarrow> vstate \<Rightarrow> vstate" where
  "check_weights E ruleset s =
     (if get ruleset (lit ''weights'') \<noteq> JUndefined then
        (if \<not> isObject (get ruleset (lit ''weights'')) then
           err E (lit ''weights'') (lit ''weights must be an object if provided.'') s
         else
           (let w = get ruleset (lit ''weights'');
                missing = filter (\<lambda>k. typeof (get w k) \<noteq> ''number'') REQUIRED_WEIGHTS
            in if length missing > 0 then warn (missing_warning (cur_file E) missing) s
               else if \<not> approxEquals (weights_sum w) (Fin 1) tolerance
               then warn (sum_warning (cur_file E) (weights_sum w)) s
               else s))
      else s)"

subsection \<open>Per-check checks\<close>

definition check_id :: "env \<Rightarrow> jstring \<Rightarrow> jsval \<Rightarrow> vstate \<Rightarrow> vstate" where
  "check_id E base c s =
     (if typeof (get c (lit ''id'')) \<noteq> ''string'' \<or> length (trim (the_str (get c (lit ''id'')))) = 0 then
        err E (base @ lit ''.id'') (lit ''id is required and must be a non-empty string.'') s
      else
        (if the_str (get c (lit ''id'')) \<in> seenIds s
         then err E (base @ lit ''.id'') (lit ''duplicate id '' @ quoted (the_str (get c (lit ''id'')))) s
         else s)\<lparr>seenIds := insert (the_str (get c (lit ''id''))) (seenIds s)\<rparr>)"

definition check_severity :: "env \<Rightarrow> jstring \<Rightarrow> jsval \<Rightarrow> vstate \<Rightarrow> vstate" where
  "check_severity E base c s =
     (if typeof (get c (lit ''severity'')) \<noteq> ''string'' \<or>
         the_str (get c (lit ''severity'')) \<notin> set ALLOWED_SEVERITIES
      then err E (base @ lit ''.severity'')
             (lit ''severity must be one of: '' @ join (lit '', '') ALLOWED_SEVERITIES) s
      else s)"

definition check_dimension :: "env \<Rightarrow> jstring \<Rightarrow> jsval \<Rightarrow> vstate \<Rightarrow> vstate" where
  "check_dimension E base c s =
     (if typeof (get c (lit ''dimension'')) \<noteq> ''string'' \<or>
         the_str (get c (lit ''dimension'')) \<notin> set ALLOWED_DIMENSIONS
      then err E (base @ lit ''.dimension'')
             (lit ''dimension must be one of: '' @ join (lit '', '') ALLOWED_DIMENSIONS) s
      else s)"

definition check_penalty :: "env \<Rightarrow> jstring \<Rightarrow> jsval \<Rightarrow> vstate \<Rightarrow> vstate" where
  "check_penalty E base c s =
     (if typeof (get c (lit ''penalty'')) \<noteq> ''number'' \<or> Number_isNaN (get c (lit ''penalty'')) then
        err E (base @ lit ''.penalty'') (lit ''penalty must be a number.'') s
      else if num_lt (the_num (get c (lit ''penalty''))) (Fin 0) then
        err E (base @ lit ''.penalty'') (lit ''penalty must be >= 0.'') s
      else s)"

definition check_message :: "env \<Rightarrow> jstring \<Rightarrow> jsval \<Rightarrow> vstate \<Rightarrow> vstate" where
  "check_message E base c s =
     (if typeof (get c (lit ''message'')) \<noteq> ''string'' \<or>
         length (trim (the_str (get c (lit ''message'')))) = 0
      then err E (base @ lit ''.message'') (lit ''message must be a non-empty string.'') s
      else s)"

subsection \<open>Operator-specific checks\<close>

definition check_selector :: "env \<Rightarrow> jstring \<Rightarrow> jsval \<Rightarrow> vstate \<Rightarrow> vstate" where
  "check_selector E base selector s =
     (if typeof selector \<noteq> ''string'' \<or> length (trim (the_str selector)) = 0 then
        err E (base @ lit ''.rule.selector'') (lit ''selector is required for op=count.'') s
      else if the_str selector \<notin> allowedSelectors E then
        err E (base @ lit ''.rule.selector'')
          (quoted (the_str selector) @ lit '' is not defined in '' @ SELECTORS_PATH) s
      else s)"

definition check_min :: "env \<Rightarrow> jstring \<Rightarrow> jsval \<Rightarrow> vstate \<Rightarrow> vstate" where
  "check_min E base min_v s =
     (if \<not> Number_isInteger min_v \<or> num_lt (the_num min_v) (Fin 0)
      then err E (base @ lit ''.rule.min'') (lit ''min must be an integer >= 0.'') s
      else s)"

definition check_max :: "env \<Rightarrow> jstring \<Rightarrow> jsval \<Rightarrow> vstate \<Rightarrow> vstate" where
  "check_max E base max_v s =
     (if \<not> Number_isInteger max_v \<or> num_lt (the_num max_v) (Fin 0)
      then err E (base @ lit ''.rule.max'') (lit ''max must be an integer >= 0.'') s
      else s)"

definition check_range :: "env \<Rightarrow> jstring \<Rightarrow> jsval \<Rightarrow> jsval \<Rightarrow> vstate \<Rightarrow> vstate" where
  "check_range E base min_v max_v s =
     (if Number_isInteger min_v \<and> Number_isInteger max_v \<and>
         num_gt (the_num min_v) (the_num max_v)
      then err E (base @ lit ''.rule'')
             (lit ''min ('' @ Number_toString (the_num min_v) @ lit '') must be <= max ('' @
              Number_toString (the_num max_v) @ lit '').'') s
      else s)"

definition check_count :: "env \<Rightarrow> jstring \<Rightarrow> jsval \<Rightarrow> vstate \<Rightarrow> vstate" where
  "check_count E base rule s =
     (if get rule (lit ''op'') = JStr (lit ''count'') then
        check_range E base (get rule (lit ''min'')) (get rule (lit ''max''))
          (check_max E base (get rule (lit ''max''))
            (check_min E base (get rule (lit ''min''))
              (check_selector E base (get rule (lit ''selector'')) s)))
      else s)"

definition check_terms :: "env \<Rightarrow> jstring \<Rightarrow> jsval \<Rightarrow> vstate \<Rightarrow> vstate" where
  "check_terms E base terms s =
     (if \<not> Array_isArray terms \<or> length (the_arr terms) = 0 \<or>
         list_ex (\<lambda>t. typeof t \<noteq> ''string'' \<or> length (trim (the_str t)) = 0) (the_arr terms)
      then err E (base @ lit ''.rule.terms'') (lit ''terms must be a non-empty array of strings.'') s
      else s)"

definition check_maxDensity :: "env \<Rightarrow> jstring \<Rightarrow> jsval \<Rightarrow> vstate \<Rightarrow> vstate" where
  "check_maxDensity E base maxDensity s =
     (if typeof maxDensity \<noteq> ''number'' \<or> Number_isNaN maxDensity \<or>
         num_lt (the_num maxDensity) (Fin 0) \<or> num_gt (the_num maxDensity) (Fin 1)
      then err E (base @ lit ''.rule.maxDensity'') (lit ''maxDensity must be a number between 0 and 1.'') s
      else s)"

definition check_term_density :: "env \<Rightarrow> jstring \<Rightarrow> jsval \<Rightarrow> vstate \<Rightarrow> vstate" where
  "check_term_density E base rule s =
     (if get rule (lit ''op'') = JStr (lit ''term_density'') then
        check_maxDensity E base (get rule (lit ''maxDensity''))
          (check_terms E base (get rule (lit ''terms'')) s)
      else s)"

text \<open>
  \<^verbatim>\<open>await fs.access(ref)\<close> is recorded in \<open>calls\<close>; it throws when the path does not
  resolve, and the \<^verbatim>\<open>catch\<close> turns that into the error.
\<close>

definition check_promptRef :: "env \<Rightarrow> jstring \<Rightarrow> jsval \<Rightarrow> vstate \<Rightarrow> vstate" where
  "check_promptRef E base ref s =
     (if typeof ref \<noteq> ''string'' \<or> length (trim (the_str ref)) = 0 then
        err E (base @ lit ''.rule.promptRef'') (lit ''promptRef is required for op=llm.'') s
      else
        (let s1 = s\<lparr>calls := calls s @ [Access (the_str ref)]\<rparr>
         in if fs_access E (the_str ref) then s1
            else err E (base @ lit ''.rule.promptRef'') (lit ''file not found '' @ quoted (the_str ref)) s1))"

definition check_introBlocks :: "env \<Rightarrow> jstring \<Rightarrow> jsval \<Rightarrow> vstate \<Rightarrow> vstate" where
  "check_introBlocks E base ib s =
     (if ib \<noteq> JUndefined then
        (if \<not> Number_isInteger ib \<or> num_lt (the_num ib) (Fin 1)
         then err E (base @ lit ''.rule.introBlocks'') (lit ''introBlocks must be an integer >= 1.'') s
         else s)
      else s)"

definition check_llm :: "env \<Rightarrow> jstring \<Rightarrow> jsval \<Rightarrow> vstate \<Rightarrow> vstate" where
  "check_llm E base rule s =
     (if get rule (lit ''op'') = JStr (lit ''llm'') then
        check_introBlocks E base (get rule (lit ''introBlocks''))
          (check_promptRef E base (get rule (lit ''promptRef'')) s)
      else s)"

subsection \<open>One entry of \<open>checks\<close>, and the loop over them\<close>

definition check_base :: "nat \<Rightarrow> jstring" where
  "check_base i = lit ''checks['' @ show_nat i @ lit '']''"

definition check_fields :: "env \<Rightarrow> jstring \<Rightarrow> jsval \<Rightarrow> vstate \<Rightarrow> vstate" where
  "check_fields E base c s =
     check_message E base c
       (check_penalty E base c
         (check_dimension E base c
           (check_severity E base c
             (check_id E base c s))))"

definition check_rule :: "env \<Rightarrow> jstring \<Rightarrow> jsval \<Rightarrow> vstate \<Rightarrow> vstate" where
  "check_rule E base c s =
     (if \<not> isObject (get c (lit ''rule'')) then
        err E (base @ lit ''.rule'') (lit ''rule is required and must be an object.'') s
      else if typeof (get (get c (lit ''rule'')) (lit ''op'')) \<noteq> ''string'' \<or>
              the_str (get (get c (lit ''rule'')) (lit ''op'')) \<notin> set ALLOWED_OPS then
        err E (base @ lit ''.rule.op'') (lit ''op must be one of: '' @ join (lit '', '') ALLOWED_OPS) s
      else
        check_llm E base (get c (lit ''rule''))
          (check_term_density E base (get c (lit ''rule''))
            (check_count E base (get c (lit ''rule'')) s)))"

definition check_entry :: "env \<Rightarrow> nat \<Rightarrow> jsval \<Rightarrow> vstate \<Rightarrow> vstate" where
  "check_entry E i c s =
     (if \<not> isObject c then err E (check_base i) (lit ''check must be an object.'') s
      else check_rule E (check_base i) c (check_fields E (check_base i) c s))"

fun checks_loop :: "env \<Rightarrow> nat \<Rightarrow> jsval list \<Rightarrow> vstate \<Rightarrow> vstate" where
  "checks_loop E i [] s = s"
| "checks_loop E i (c # cs) s = checks_loop E (Suc i) cs (check_entry E i c s)"

definition check_checks :: "env \<Rightarrow> jsval \<Rightarrow> vstate \<Rightarrow> vstate" where
  "check_checks E ruleset s =
     (let s1 = (if \<not> Array_isArray (get ruleset (lit ''checks''))
                then err E (lit ''checks'') (lit ''checks must be an array.'') s else s);
          checks = (if Array_isArray (get ruleset (lit ''checks''))
                    then the_arr (get ruleset (lit ''checks'')) else [])
      in checks_loop E 0 checks (s1\<lparr>seenIds := {}\<rparr>))"

definition validate :: "env \<Rightarrow> jsval \<Rightarrow> vstate \<Rightarrow> vstate" where
  "validate E ruleset s = check_checks E ruleset (check_weights E ruleset (check_language E ruleset s))"

subsection \<open>The script: selector table, file loop, exit code\<close>

text \<open>
  The world the script runs in: what \<^verbatim>\<open>fs.readFile\<close> followed by \<^verbatim>\<open>YAML.parse\<close>
  gives for a path (the parsed value, or the exception thrown by either, printed with
  \<^verbatim>\<open>String(e)\<close>), what \<^verbatim>\<open>glob\<close> matches, which paths \<^verbatim>\<open>fs.access\<close>
  resolves, and the case mappings of the runtime.
\<close>

datatype parse_result = Threw jstring | Parsed jsval

record world =
  read_yaml :: "jstring \<Rightarrow> parse_result"
  glob :: "jstring \<Rightarrow> jstring list"
  access :: "jstring \<Rightarrow> bool"
  lower_case :: "jstring \<Rightarrow> jstring"
  upper_case :: "jstring \<Rightarrow> jstring"

datatype console_line = Log jstring | Warn jstring | Error jstring

record run =
  console :: "console_line list"
  failedAny :: bool
  fs_calls :: "fs_call list"

definition fail_line :: "diag \<Rightarrow> console_line" where
  "fail_line e = Error (lit ''FAIL '' @ file e @ lit '' '' @ path e @ lit '': '' @ message e)"

text \<open>The value of \<open>ruleset\<close> and the array \<open>errors\<close> after the \<^verbatim>\<open>try\<close> block.\<close>

definition parsed_value :: "parse_result \<Rightarrow> jsval" where
  "parsed_value r = (case r of Threw e \<Rightarrow> JNull | Parsed v \<Rightarrow> v)"

definition parse_errors :: "jstring \<Rightarrow> parse_result \<Rightarrow> diag list" where
  "parse_errors f r =
     (case r of Threw e \<Rightarrow> fail [] f (lit ''(root)'') (lit ''YAML parse error: '' @ e) | Parsed v \<Rightarrow> [])"

definition root_errors :: "jstring \<Rightarrow> parse_result \<Rightarrow> diag list" where
  "root_errors f r =
     (if parsed_value r = JNull then
        fail (parse_errors f r) f (lit ''(root)'') (lit ''Ruleset is empty (YAML parsed to null).'')
      else if \<not> isObject (parsed_value r) then
        fail (parse_errors f r) f (lit ''(root)'') (lit ''Ruleset must be an object.'')
      else parse_errors f r)"

definition file_env :: "world \<Rightarrow> jstring set \<Rightarrow> jstring \<Rightarrow> env" where
  "file_env W allowed f =
     \<lparr>cur_file = f, allowedSelectors = allowed, fs_access = access W,
      toLowerCase = lower_case W, toUpperCase = upper_case W\<rparr>"

definition validate_file :: "world \<Rightarrow> jstring set \<Rightarrow> jstring \<Rightarrow> vstate" where
  "validate_file W allowed f =
     validate (file_env W allowed f) (parsed_value (read_yaml W f))
       \<lparr>errors = root_errors f (read_yaml W f), warnings = [], seenIds = {}, calls = []\<rparr>"

definition process_file :: "world \<Rightarrow> jstring set \<Rightarrow> jstring \<Rightarrow> run \<Rightarrow> run" where
  "process_file W allowed f r =
     (if length (root_errors f (read_yaml W f)) > 0 then
        r\<lparr>console := console r @ map fail_line (root_errors f (read_yaml W f)),
          failedAny := True,
          fs_calls := fs_calls r @ [ReadFile f]\<rparr>
      else
        (let s = validate_file W allowed f
         in if length (errors s) > 0 then
              r\<lparr>console := console r @ map Warn (warnings s) @ map fail_line (errors s),
                failedAny := True,
                fs_calls := fs_calls r @ [ReadFile f] @ calls s\<rparr>
            else
              r\<lparr>console := console r @ map Warn (warnings s) @ [Log (lit ''OK   semantic '' @ f)],
                fs_calls := fs_calls r @ [ReadFile f] @ calls s\<rparr>))"

fun files_loop :: "world \<Rightarrow> jstring set \<Rightarrow> jstring list \<Rightarrow> run \<Rightarrow> run" where
  "files_loop W allowed [] r = r"
| "files_loop W allowed (f # fs) r = files_loop W allowed fs (process_file W allowed f r)"

definition selectors_usage :: jstring where
  "selectors_usage = lit ''FAIL '' @ SELECTORS_PATH @ lit '': missing/empty/invalid. Expected:'' @
     [0x0A] @ lit ''version: v1'' @ [0x0A] @ lit ''selectors:'' @ [0x0A] @
     lit ''  h1: { kind: heading, level: 1 }'' @ [0x0A] @ lit ''  p: { kind: paragraph }'' @ [0x0A]"

record outcome =
  printed :: "console_line list"
  exit_code :: nat
  fs_trace :: "fs_call list"

definition semantic_main :: "world \<Rightarrow> outcome" where
  "semantic_main W =
     (let selectorsDoc = parsed_value (read_yaml W SELECTORS_PATH)
      in if \<not> isObject selectorsDoc \<or> \<not> isObject (get selectorsDoc (lit ''selectors'')) then
           \<lparr>printed = [Error selectors_usage], exit_code = 1, fs_trace = [ReadFile SELECTORS_PATH]\<rparr>
         else if length (glob W RULESET_GLOB) = 0 then
           \<lparr>printed = [Log (lit ''OK semantic: no files matched '' @ RULESET_GLOB)], exit_code = 0,
            fs_trace = [ReadFile SELECTORS_PATH]\<rparr>
         else
           (let r = files_loop W (set (Object_keys (get selectorsDoc (lit ''selectors''))))
                      (glob W RULESET_GLOB)
                      \<lparr>console = [], failedAny = False, fs_calls = [ReadFile SELECTORS_PATH]\<rparr>
            in \<lparr>printed = console r, exit_code = (if failedAny r then 1 else 0),
                fs_trace = fs_calls r\<rparr>))"

section \<open>Vocabulary of the specification\<close>

text \<open>
  The definitions of this section are not taken from the source. They write down, in the
  words of the specification, what the properties below compare the state-passing code
  with: what each field of a rule contributes, what the weights sum to and when that is
  within the tolerance, what a file reports, and which ids repeat an earlier one.
\<close>

definition nonneg_integer :: "jsval \<Rightarrow> bool" where
  "nonneg_integer v = (Number_isInteger v \<and> num_ge (the_num v) (Fin 0))"

definition selector_errors :: "env \<Rightarrow> jstring \<Rightarrow> jsval \<Rightarrow> diag list" where
  "selector_errors E base selector =
     (if typeof selector \<noteq> ''string'' \<or> trim (the_str selector) = []
      then [\<lparr>file = cur_file E, path = base @ lit ''.rule.selector'',
             message = lit ''selector is required for op=count.''\<rparr>]
      else if the_str selector \<notin> allowedSelectors E
      then [\<lparr>file = cur_file E, path = base @ lit ''.rule.selector'',
             message = quoted (the_str selector) @ lit '' is not defined in '' @ SELECTORS_PATH\<rparr>]
      else [])"

definition promptRef_errors :: "env \<Rightarrow> jstring \<Rightarrow> jsval \<Rightarrow> diag list" where
  "promptRef_errors E base ref =
     (if typeof ref \<noteq> ''string'' \<or> trim (the_str ref) = []
      then [\<lparr>file = cur_file E, path = base @ lit ''.rule.promptRef'',
             message = lit ''promptRef is required for op=llm.''\<rparr>]
      else if fs_access E (the_str ref) then []
      else [\<lparr>file = cur_file E, path = base @ lit ''.rule.promptRef'',
             message = lit ''file not found '' @ quoted (the_str ref)\<rparr>])"

definition promptRef_probes :: "jsval \<Rightarrow> fs_call list" where
  "promptRef_probes ref =
     (if typeof ref \<noteq> ''string'' \<or> trim (the_str ref) = [] then [] else [Access (the_str ref)])"

definition introBlocks_errors :: "env \<Rightarrow> jstring \<Rightarrow> jsval \<Rightarrow> diag list" where
  "introBlocks_errors E base ib =
     (if ib = JUndefined \<or> (Number_isInteger ib \<and> num_ge (the_num ib) (Fin 1)) then []
      else [\<lparr>file = cur_file E, path = base @ lit ''.rule.introBlocks'',
             message = lit ''introBlocks must be an integer >= 1.''\<rparr>])"

text \<open>
  For the proofs about rounding: the magnitude that \<open>round64\<close> gives a positive value
  before the test for overflow.
\<close>

definition rounded_mag :: "rat \<Rightarrow> rat" where
  "rounded_mag a = round_ulp a (pow2 (binade 12 (- 1022) 1023 a - 52))"

text \<open>
  For the weights: the sum as the code computes it, by floating-point additions from
  left to right starting at \<open>0\<close>, and what it is for a Number to lie within an absolute
  tolerance of one ten-thousandth of \<open>1\<close>: it is finite and its exact value differs
  from \<open>1\<close> by at most \<open>1 / 10000\<close>.
\<close>

definition float_sum5 :: "jsnum \<Rightarrow> jsnum \<Rightarrow> jsnum \<Rightarrow> jsnum \<Rightarrow> jsnum \<Rightarrow> jsnum" where
  "float_sum5 a b c d e = num_add (num_add (num_add (num_add (num_add (Fin 0) a) b) c) d) e"

fun within_tolerance :: "jsnum \<Rightarrow> bool" where
  "within_tolerance (Fin q) = (\<bar>q - 1\<bar> \<le> 1 / 10000)"
| "within_tolerance _ = False"

text \<open>
  The array \<open>errors\<close> of a file when its iteration of the loop ends, the lines the
  iteration prints, and the selector names the script holds after its start.
\<close>

definition file_errors :: "world \<Rightarrow> jstring set \<Rightarrow> jstring \<Rightarrow> diag list" where
  "file_errors W allowed f =
     (if root_errors f (read_yaml W f) \<noteq> [] then root_errors f (read_yaml W f)
      else errors (validate_file W allowed f))"

definition file_report :: "world \<Rightarrow> jstring set \<Rightarrow> jstring \<Rightarrow> console_line list" where
  "file_report W allowed f =
     console (process_file W allowed f \<lparr>console = [], failedAny = False, fs_calls = []\<rparr>)"

definition loaded_selectors :: "world \<Rightarrow> jstring set" where
  "loaded_selectors W =
     set (Object_keys (get (parsed_value (read_yaml W SELECTORS_PATH)) (lit ''selectors'')))"

text \<open>
  For the duplicate ids: the id an entry carries, when it counts as given (a string
  with a character that is not white space), the error a repeated id gets at index
  \<open>i\<close>, how such an error is recognised by its message, and the entries that repeat
  the id of an earlier entry. A check is plain when all it does to the errors, the
  warnings and the seen ids is append errors, the same ones whatever the state, none of
  them a duplicate error.
\<close>

definition id_of :: "jsval \<Rightarrow> jstring" where
  "id_of c = the_str (get c (lit ''id''))"

definition valid_id :: "jsval \<Rightarrow> bool" where
  "valid_id c = (typeof (get c (lit ''id'')) = ''string'' \<and> trim (id_of c) \<noteq> [])"

definition ids_of :: "jsval list \<Rightarrow> jstring set" where
  "ids_of cs = id_of ` {c \<in> set cs. valid_id c}"

definition dup_error :: "env \<Rightarrow> nat \<Rightarrow> jstring \<Rightarrow> diag" where
  "dup_error E i x = \<lparr>file = cur_file E, path = check_base i @ lit ''.id'',
                       message = lit ''duplicate id '' @ quoted x\<rparr>"

definition is_dup :: "diag \<Rightarrow> bool" where
  "is_dup d = prefix (lit ''duplicate id '') (message d)"

definition plain_check :: "(vstate \<Rightarrow> vstate) \<Rightarrow> bool" where
  "plain_check f = (\<exists>es. (\<forall>d\<in>set es. \<not> is_dup d) \<and>
                         (\<forall>s. errors (f s) = errors s @ es \<and> seenIds (f s) = seenIds s \<and>
                              warnings (f s) = warnings s))"

definition repeats_id :: "jsval list \<Rightarrow> nat \<Rightarrow> bool" where
  "repeats_id cs j = (valid_id (cs ! j) \<and> (\<exists>i<j. valid_id (cs ! i) \<and> id_of (cs ! i) = id_of (cs ! j)))"

section \<open>Sample inputs for the worked examples\<close>

text \<open>The state in which the validation of a file starts, before any diagnostic.\<close>

definition fresh :: vstate where
  "fresh = \<lparr>errors = [], warnings = [], seenIds = {}, calls = []\<rparr>"

text \<open>
  The case mappings of the samples are those of the runtime on the code units below
  \<open>U+0100\<close> (Basic Latin and Latin-1 Supplement): lower case adds \<open>0x20\<close> to
  \<open>A\<close>--\<open>Z\<close> and to \<open>U+00C0\<close>--\<open>U+00DE\<close> except the multiplication sign; upper
  case subtracts it from \<open>a\<close>--\<open>z\<close> and from \<open>U+00E0\<close>--\<open>U+00FE\<close> except the
  division sign, and maps the sharp s to \<open>SS\<close>, the micro sign to \<open>U+039C\<close> and
  \<open>U+00FF\<close> to \<open>U+0178\<close>. Other code units are left as they are; the samples contain
  none that has a case mapping.
\<close>

definition latin1_lower :: "jstring \<Rightarrow> jstring" where
  "latin1_lower s =
     map (\<lambda>c. if (0x41 \<le> c \<and> c \<le> 0x5A) \<or> (0xC0 \<le> c \<and> c \<le> 0xDE \<and> c \<noteq> 0xD7)
               then c + 0x20 else c) s"

definition latin1_upper :: "jstring \<Rightarrow> jstring" where
  "latin1_upper s =
     concat (map (\<lambda>c. if (0x61 \<le> c \<and> c \<le> 0x7A) \<or> (0xE0 \<le> c \<and> c \<le> 0xFE \<and> c \<noteq> 0xF7)
                       then [c - 0x20]
                       else if c = 0xDF then [0x53, 0x53]
                       else if c = 0xB5 then [0x39C]
                       else if c = 0xFF then [0x178]
                       else [c]) s)"

text \<open>A ruleset file, two selectors, and a file system on which no prompt file exists.\<close>

definition demo_env :: env where
  "demo_env = \<lparr>cur_file = lit ''rules/a/ruleset.yml'', allowedSelectors = {lit ''h1'', lit ''p''},
                fs_access = (\<lambda>p. False),
                toLowerCase = latin1_lower, toUpperCase = latin1_upper\<rparr>"

text \<open>An entry whose rule is a \<open>count\<close>, one whose rule is an \<open>llm\<close>, and a ruleset with weights.\<close>

definition count_entry :: "jsval \<Rightarrow> jsval \<Rightarrow> jsval \<Rightarrow> jsval" where
  "count_entry selector min_v max_v =
     JObj [(lit ''rule'', JObj [(lit ''op'', JStr (lit ''count'')), (lit ''selector'', selector),
                            (lit ''min'', min_v), (lit ''max'', max_v)])]"

definition llm_entry :: "jsval \<Rightarrow> jsval \<Rightarrow> jsval" where
  "llm_entry ref ib =
     JObj [(lit ''rule'', JObj [(lit ''op'', JStr (lit ''llm'')), (lit ''promptRef'', ref), (lit ''introBlocks'', ib)])]"

definition weights_doc :: "jsnum \<Rightarrow> jsnum \<Rightarrow> jsnum \<Rightarrow> jsnum \<Rightarrow> jsnum \<Rightarrow> jsval" where
  "weights_doc a b c d e = JObj [(lit ''weights'',
     JObj [(lit ''structure'', JNum a), (lit ''answerability'', JNum b), (lit ''neutrality'', JNum c),
           (lit ''topical_focus'', JNum d), (lit ''entity_binding'', JNum e)])]"

text \<open>
  A selector table and a world with two ruleset files, one with an empty list of checks
  and one that is empty; \<open>glob\<close> finds the files given.
\<close>

definition demo_selectors :: jsval where
  "demo_selectors = JObj [(lit ''version'', JStr (lit ''v1'')),
     (lit ''selectors'', JObj [(lit ''h1'', JObj [(lit ''kind'', JStr (lit ''heading'')), (lit ''level'', JNum (Fin 1))]),
                          (lit ''p'', JObj [(lit ''kind'', JStr (lit ''paragraph''))])])]"

definition demo_world :: "jstring list \<Rightarrow> world" where
  "demo_world files =
     \<lparr>read_yaml = (\<lambda>p. if p = SELECTORS_PATH then Parsed demo_selectors
                       else if p = lit ''rules/a/ruleset.yml'' then Parsed (JObj [(lit ''checks'', JArr [])])
                       else if p = lit ''rules/b/ruleset.yml'' then Parsed JNull
                       else Threw (lit ''Error: ENOENT'')),
      glob = (\<lambda>p. files),
      access = (\<lambda>p. False),
      lower_case = latin1_lower,
      upper_case = latin1_upper\<rparr>"

text \<open>An entry that has an id and nothing else, and a ruleset with the given checks.\<close>

definition id_entry :: "jstring \<Rightarrow> jsval" where
  "id_entry x = JObj [(lit ''id'', JStr x)]"

definition checks_doc :: "jsval list \<Rightarrow> jsval" where
  "checks_doc cs = JObj [(lit ''checks'', JArr cs)]"

section \<open>Properties\<close>

subsection \<open>What a diagnostic changes in the state\<close>

lemma err_simps [simp]:
  "errors (err E p m s) = errors s @ [\<lparr>file = cur_file E, path = p, message = m\<rparr>]"
  "warnings (err E p m s) = warnings s"
  "seenIds (err E p m s) = seenIds s"
  "calls (err E p m s) = calls s"
  by (simp_all add: err_def fail_def)

lemma warn_simps [simp]:
  "errors (warn w s) = errors s"
  "warnings (warn w s) = warnings s @ [w]"
  "seenIds (warn w s) = seenIds s"
  "calls (warn w s) = calls s"
  by (simp_all add: warn_def)

subsection \<open>Types and comparisons\<close>

lemma typeof_number_iff: "typeof v = ''number'' \<longleftrightarrow> (\<exists>x. v = JNum x)"
  by (cases v) auto

lemma typeof_string_iff: "typeof v = ''string'' \<longleftrightarrow> (\<exists>x. v = JStr x)"
  by (cases v) auto

lemma Number_isNaN_iff: "Number_isNaN v \<longleftrightarrow> v = JNum NaN"
  by (cases v) auto

lemma num_ge_zero_iff: "x \<noteq> NaN \<Longrightarrow> num_ge x (Fin 0) \<longleftrightarrow> \<not> num_lt x (Fin 0)"
  by (cases x) (auto simp: num_ge_def)

lemma Number_isInteger_iff: "Number_isInteger v \<longleftrightarrow> (\<exists>x. v = JNum x \<and> num_isInteger x)"
  by (cases v) auto

lemma int_nonneg_iff: "num_isInteger x \<Longrightarrow> num_ge x (Fin 0) \<longleftrightarrow> \<not> num_lt x (Fin 0)"
  by (cases x) (auto simp: num_ge_def)

lemma int_ge_one_iff: "num_isInteger x \<Longrightarrow> num_ge x (Fin 1) \<longleftrightarrow> \<not> num_lt x (Fin 1)"
  by (cases x) (auto simp: num_ge_def)

lemma int_le_iff: "num_isInteger x \<Longrightarrow> num_isInteger y \<Longrightarrow> num_le x y \<longleftrightarrow> \<not> num_gt x y"
  by (cases x; cases y) (auto simp: num_gt_def)

subsection \<open>Evaluating strings and arithmetic\<close>

lemma lit_Nil [simp]: "lit [] = []"
  by (simp add: lit_def)

lemma lit_Cons: "lit (c # cs) = of_char c # lit cs"
  by (simp add: lit_def)

lemma lit_eq_iff [simp]: "lit a = lit b \<longleftrightarrow> a = b"
  by (simp add: lit_def inj_map_eq_map inj_on_def)

lemma lit_append_lit [simp]:
  "lit a @ lit b = lit (a @ b)" "lit a @ lit b @ xs = lit (a @ b) @ xs"
  by (simp_all add: lit_def)

lemma prefix_lit_Cons [simp]:
  "prefix (lit (a # as)) (lit (b # bs)) \<longleftrightarrow> a = b \<and> prefix (lit as) (lit bs)"
  "prefix (lit (a # as)) (lit (b # bs) @ xs) \<longleftrightarrow> a = b \<and> prefix (lit as) (lit bs @ xs)"
  by (simp_all add: lit_def)

lemma prefix_lit_code_unit [simp]:
  "prefix (lit (a # as)) (c # xs) \<longleftrightarrow> of_char a = c \<and> prefix (lit as) xs"
  by (simp add: lit_def)

lemma lit_eq_Nil_iff [simp]: "lit a = [] \<longleftrightarrow> a = []" "[] = lit a \<longleftrightarrow> a = []"
  by (auto simp: lit_def)

lemmas str_eval = lit_Cons show_nat.simps trim_def isWhiteSpace_def isAlpha_def isAlnum_def
  quoted_def latin1_lower_def latin1_upper_def

lemma binade_numeral:
  "binade (numeral k) lo hi a =
     (if hi \<le> lo then lo
      else let mid = (lo + hi + 1) div 2
           in if pow2 mid \<le> a then binade (pred_numeral k) mid hi a
              else binade (pred_numeral k) lo (mid - 1) a)"
  by (simp add: numeral_eq_Suc)

lemma shortest_from_numeral:
  "shortest_from (numeral n) k x =
     (case digits_candidate x k of Some v \<Rightarrow> v | None \<Rightarrow> shortest_from (pred_numeral n) (k + 1) x)"
  by (simp add: numeral_eq_Suc)

lemma floor_rat_numeral:
  "\<lfloor>(numeral a / numeral b :: rat)\<rfloor> = numeral a div numeral b"
  using floor_divide_of_int_eq [of "numeral a" "numeral b", where ?'a = rat] by simp

lemma floor_rat_one_numeral:
  "\<lfloor>(1 / numeral b :: rat)\<rfloor> = 1 div numeral b"
  using floor_divide_of_int_eq [of 1 "numeral b", where ?'a = rat] by simp

lemmas r64 = round64_def overflow64_def round_ulp_def round_half_even_def tie_even_def
  binade_numeral binade.simps(1) pow2_def Let_def floor_rat_numeral floor_rat_one_numeral

lemmas toString_eval = nat_toString_def digits_toString_def exponent_form_def strip_zeros_def
  shortest_from_numeral shortest_from.simps(1) digits_candidate_def pick_digits_def
  nearer_def rounds_to_def

lemmas num_eval = num_ge_def num_gt_def nonneg_integer_def

lemma tolerance_value: "tolerance = Fin (7378697629483821 / 2 ^ 66)"
  by (simp add: tolerance_def r64)

subsection \<open>The penalty field\<close>

text \<open>
  Claim C6, as amended. The two tests on \<open>penalty\<close> form a chain, not two independent
  checks: an entry gets the error \<open>penalty must be a number.\<close> when the value is not of
  type number or is \<open>NaN\<close>; only otherwise is the value compared with zero, and the
  error \<open>penalty must be >= 0.\<close> is given exactly when \<open>penalty >= 0\<close> fails. So the
  field yields at most one error, and nothing else in the state changes.
\<close>

theorem penalty_one_error_in_sequence:
  "errors (check_penalty E base c s) = errors s @
     (if typeof (get c (lit ''penalty'')) \<noteq> ''number'' \<or> get c (lit ''penalty'') = JNum NaN
      then [\<lparr>file = cur_file E, path = base @ lit ''.penalty'', message = lit ''penalty must be a number.''\<rparr>]
      else if \<not> num_ge (the_num (get c (lit ''penalty''))) (Fin 0)
      then [\<lparr>file = cur_file E, path = base @ lit ''.penalty'', message = lit ''penalty must be >= 0.''\<rparr>]
      else [])
   \<and> warnings (check_penalty E base c s) = warnings s
   \<and> seenIds (check_penalty E base c s) = seenIds s
   \<and> calls (check_penalty E base c s) = calls s"
proof (cases "typeof (get c (lit ''penalty'')) \<noteq> ''number'' \<or> get c (lit ''penalty'') = JNum NaN")
  case True
  then show ?thesis by (auto simp: check_penalty_def Number_isNaN_iff)
next
  case False
  then obtain x where x: "get c (lit ''penalty'') = JNum x" "x \<noteq> NaN"
    by (auto simp: typeof_number_iff)
  then show ?thesis
    by (simp add: check_penalty_def num_ge_zero_iff)
qed

text \<open>
  A penalty of \<open>-1\<close> gets the second error, a penalty given as the string \<open>1\<close> the
  first.
\<close>

theorem penalty_one_error_in_sequence_witness:
  "errors (check_penalty demo_env (lit ''checks[0]'') (JObj [(lit ''penalty'', JNum (Fin (- 1)))]) fresh) =
     [\<lparr>file = lit ''rules/a/ruleset.yml'', path = lit ''checks[0].penalty'',
       message = lit ''penalty must be >= 0.''\<rparr>]
   \<and> errors (check_penalty demo_env (lit ''checks[0]'') (JObj [(lit ''penalty'', JStr (lit ''1''))]) fresh) =
     [\<lparr>file = lit ''rules/a/ruleset.yml'', path = lit ''checks[0].penalty'',
       message = lit ''penalty must be a number.''\<rparr>]"
  using penalty_one_error_in_sequence
          [of demo_env "lit ''checks[0]''" "JObj [(lit ''penalty'', JNum (Fin (- 1)))]" fresh]
        penalty_one_error_in_sequence
          [of demo_env "lit ''checks[0]''" "JObj [(lit ''penalty'', JStr (lit ''1''))]" fresh]
  by (simp add: demo_env_def fresh_def num_ge_def)

text \<open>
  Claim C6 as stated fails for \<open>penalty: .nan\<close>. The value violates both conditions
  (it is \<open>NaN\<close>, and \<open>NaN >= 0\<close> is false), yet the entry gets the first error
  only: the comparison with zero sits in the \<^verbatim>\<open>else\<close> branch of the first test.
\<close>

theorem penalty_nan_counterexample:
  "Number_isNaN (get (JObj [(lit ''penalty'', JNum NaN)]) (lit ''penalty''))
   \<and> \<not> num_ge (the_num (get (JObj [(lit ''penalty'', JNum NaN)]) (lit ''penalty''))) (Fin 0)
   \<and> errors (check_penalty demo_env (lit ''checks[0]'') (JObj [(lit ''penalty'', JNum NaN)]) fresh) =
       [\<lparr>file = lit ''rules/a/ruleset.yml'', path = lit ''checks[0].penalty'',
         message = lit ''penalty must be a number.''\<rparr>]"
  by (simp add: check_penalty_def demo_env_def fresh_def num_ge_def)

subsection \<open>Rules with \<open>op = count\<close>\<close>

text \<open>
  Claim C3. For an entry whose rule is an object with \<open>op = count\<close>, the errors of the
  rule are the errors of four checks, one after the other and none depending on another:
  the selector (required, or not in the selector table); \<open>min\<close> a non-negative integer;
  \<open>max\<close> a non-negative integer; and, whenever both are integers of either sign,
  \<open>min <= max\<close>.
\<close>

theorem count_errors_additive:
  assumes "isObject (get c (lit ''rule''))" and "get (get c (lit ''rule'')) (lit ''op'') = JStr (lit ''count'')"
  shows "errors (check_rule E base c s) = errors s @
      selector_errors E base (get (get c (lit ''rule'')) (lit ''selector'')) @
      (if nonneg_integer (get (get c (lit ''rule'')) (lit ''min'')) then []
       else [\<lparr>file = cur_file E, path = base @ lit ''.rule.min'',
              message = lit ''min must be an integer >= 0.''\<rparr>]) @
      (if nonneg_integer (get (get c (lit ''rule'')) (lit ''max'')) then []
       else [\<lparr>file = cur_file E, path = base @ lit ''.rule.max'',
              message = lit ''max must be an integer >= 0.''\<rparr>]) @
      (if Number_isInteger (get (get c (lit ''rule'')) (lit ''min'')) \<and>
          Number_isInteger (get (get c (lit ''rule'')) (lit ''max'')) \<and>
          \<not> num_le (the_num (get (get c (lit ''rule'')) (lit ''min''))) (the_num (get (get c (lit ''rule'')) (lit ''max'')))
       then [\<lparr>file = cur_file E, path = base @ lit ''.rule'',
              message = lit ''min ('' @ Number_toString (the_num (get (get c (lit ''rule'')) (lit ''min''))) @
                lit '') must be <= max ('' @
                Number_toString (the_num (get (get c (lit ''rule'')) (lit ''max''))) @ lit '').''\<rparr>]
       else [])"
proof -
  let ?r = "get c (lit ''rule'')"
  have sel: "errors (check_selector E base v t) = errors t @ selector_errors E base v" for v t
    by (simp add: check_selector_def selector_errors_def)
  have mn: "errors (check_min E base v t) = errors t @
      (if nonneg_integer v then []
       else [\<lparr>file = cur_file E, path = base @ lit ''.rule.min'',
              message = lit ''min must be an integer >= 0.''\<rparr>])" for v t
    by (auto simp: check_min_def nonneg_integer_def Number_isInteger_iff int_nonneg_iff)
  have mx: "errors (check_max E base v t) = errors t @
      (if nonneg_integer v then []
       else [\<lparr>file = cur_file E, path = base @ lit ''.rule.max'',
              message = lit ''max must be an integer >= 0.''\<rparr>])" for v t
    by (auto simp: check_max_def nonneg_integer_def Number_isInteger_iff int_nonneg_iff)
  have rg: "errors (check_range E base v w t) = errors t @
      (if Number_isInteger v \<and> Number_isInteger w \<and> \<not> num_le (the_num v) (the_num w)
       then [\<lparr>file = cur_file E, path = base @ lit ''.rule'',
              message = lit ''min ('' @ Number_toString (the_num v) @ lit '') must be <= max ('' @
                Number_toString (the_num w) @ lit '').''\<rparr>]
       else [])" for v w t
    by (auto simp: check_range_def Number_isInteger_iff int_le_iff)
  have "check_rule E base c s = check_count E base ?r s"
    using assms by (simp add: check_rule_def ALLOWED_OPS_def check_llm_def check_term_density_def)
  then show ?thesis
    using assms by (simp add: check_count_def sel mn mx rg)
qed

text \<open>
  With \<open>min = 5\<close>, \<open>max = 3\<close> and a selector of the table, the range error is the
  only one. With no selector, \<open>min = 2\<close> and \<open>max = -1\<close>, the selector error, the
  error on \<open>max\<close> and the range error are all given. With a selector that is one
  NO-BREAK SPACE, \<open>min = 2 ^ 63\<close> and \<open>max = 0\<close>, the selector counts as missing and
  the range error prints \<open>min\<close> as \<open>Number::toString\<close> does.
\<close>

theorem count_errors_additive_witness:
  "errors (check_rule demo_env (lit ''checks[0]'')
            (count_entry (JStr (lit ''h1'')) (JNum (Fin 5)) (JNum (Fin 3))) fresh) =
     [\<lparr>file = lit ''rules/a/ruleset.yml'', path = lit ''checks[0].rule'',
       message = lit ''min (5) must be <= max (3).''\<rparr>]
   \<and> errors (check_rule demo_env (lit ''checks[0]'')
            (count_entry JUndefined (JNum (Fin 2)) (JNum (Fin (- 1)))) fresh) =
     [\<lparr>file = lit ''rules/a/ruleset.yml'', path = lit ''checks[0].rule.selector'',
       message = lit ''selector is required for op=count.''\<rparr>,
      \<lparr>file = lit ''rules/a/ruleset.yml'', path = lit ''checks[0].rule.max'',
       message = lit ''max must be an integer >= 0.''\<rparr>,
      \<lparr>file = lit ''rules/a/ruleset.yml'', path = lit ''checks[0].rule'',
       message = lit ''min (2) must be <= max (-1).''\<rparr>]
   \<and> errors (check_rule demo_env (lit ''checks[0]'')
            (count_entry (JStr [0xA0]) (JNum (Fin (2 ^ 63))) (JNum (Fin 0))) fresh) =
     [\<lparr>file = lit ''rules/a/ruleset.yml'', path = lit ''checks[0].rule.selector'',
       message = lit ''selector is required for op=count.''\<rparr>,
      \<lparr>file = lit ''rules/a/ruleset.yml'', path = lit ''checks[0].rule'',
       message = lit ''min (9223372036854776000) must be <= max (0).''\<rparr>]"
proof -
  have n: "nat_toString 5 = lit ''5''" "nat_toString 3 = lit ''3''" "nat_toString 2 = lit ''2''"
    "nat_toString (Suc 0) = lit ''1''" "nat_toString 0 = lit ''0''"
    by (simp_all add: toString_eval r64 str_eval)
  have big: "nat_toString 9223372036854775808 = lit ''9223372036854776000''"
    by (simp add: toString_eval r64 str_eval)
  show ?thesis
    using count_errors_additive [of "count_entry (JStr (lit ''h1'')) (JNum (Fin 5)) (JNum (Fin 3))"
          demo_env "lit ''checks[0]''" fresh]
      count_errors_additive [of "count_entry JUndefined (JNum (Fin 2)) (JNum (Fin (- 1)))"
          demo_env "lit ''checks[0]''" fresh]
      count_errors_additive [of "count_entry (JStr [0xA0]) (JNum (Fin (2 ^ 63))) (JNum (Fin 0))"
          demo_env "lit ''checks[0]''" fresh]
    by (simp add: count_entry_def isObject_def demo_env_def fresh_def selector_errors_def
          num_eval n big str_eval)
qed

subsection \<open>Rules with \<open>op = llm\<close>\<close>

text \<open>
  Claim C7, as amended. For an entry whose rule is an object with \<open>op = llm\<close>: when
  \<open>promptRef\<close> is missing, not a string, or blank (empty once \<^verbatim>\<open>trim\<close> has removed
  the white space and line terminators at both ends),
  the error \<open>promptRef is required for op=llm.\<close> is given and the file system is not
  consulted; otherwise exactly one call is made, \<^verbatim>\<open>fs.access\<close> on the untrimmed
  string, no file is read, and the different error \<open>file not found\<close> is given exactly
  when that call fails. Independently, \<open>introBlocks\<close> gives an error exactly when it is
  present and not an integer \<open>>= 1\<close>.
\<close>

theorem llm_promptRef_and_introBlocks:
  assumes "isObject (get c (lit ''rule''))" and "get (get c (lit ''rule'')) (lit ''op'') = JStr (lit ''llm'')"
  shows "errors (check_rule E base c s) = errors s @
           promptRef_errors E base (get (get c (lit ''rule'')) (lit ''promptRef'')) @
           introBlocks_errors E base (get (get c (lit ''rule'')) (lit ''introBlocks''))
       \<and> calls (check_rule E base c s) =
           calls s @ promptRef_probes (get (get c (lit ''rule'')) (lit ''promptRef''))"
proof -
  let ?r = "get c (lit ''rule'')"
  have pe: "errors (check_promptRef E base v t) = errors t @ promptRef_errors E base v" for v t
    by (simp add: check_promptRef_def promptRef_errors_def Let_def)
  have pc: "calls (check_promptRef E base v t) = calls t @ promptRef_probes v" for v t
    by (simp add: check_promptRef_def promptRef_probes_def Let_def)
  have ie: "errors (check_introBlocks E base v t) = errors t @ introBlocks_errors E base v" for v t
    by (auto simp: check_introBlocks_def introBlocks_errors_def Number_isInteger_iff int_ge_one_iff)
  have ic: "calls (check_introBlocks E base v t) = calls t" for v t
    by (simp add: check_introBlocks_def)
  have "check_rule E base c s = check_llm E base ?r s"
    using assms by (simp add: check_rule_def ALLOWED_OPS_def check_count_def check_term_density_def)
  then show ?thesis
    using assms by (simp add: check_llm_def pe pc ie ic)
qed

text \<open>
  \<open>promptRef: does/not/exist.md\<close> without \<open>introBlocks\<close>: one probe, the error
  \<open>file not found\<close>, nothing for the absent \<open>introBlocks\<close>. No \<open>promptRef\<close> and
  \<open>introBlocks: 0\<close>: no probe, the error \<open>required\<close> and the error on
  \<open>introBlocks\<close>. A \<open>promptRef\<close> that is one EM SPACE: no probe, the error
  \<open>required\<close>.
\<close>

theorem llm_promptRef_and_introBlocks_witness:
  "errors (check_rule demo_env (lit ''checks[0]'')
             (llm_entry (JStr (lit ''does/not/exist.md'')) JUndefined) fresh) =
     [\<lparr>file = lit ''rules/a/ruleset.yml'', path = lit ''checks[0].rule.promptRef'',
       message = lit ''file not found '' @ quoted (lit ''does/not/exist.md'')\<rparr>]
   \<and> calls (check_rule demo_env (lit ''checks[0]'')
             (llm_entry (JStr (lit ''does/not/exist.md'')) JUndefined) fresh) =
     [Access (lit ''does/not/exist.md'')]
   \<and> errors (check_rule demo_env (lit ''checks[0]'') (llm_entry JUndefined (JNum (Fin 0))) fresh) =
     [\<lparr>file = lit ''rules/a/ruleset.yml'', path = lit ''checks[0].rule.promptRef'',
       message = lit ''promptRef is required for op=llm.''\<rparr>,
      \<lparr>file = lit ''rules/a/ruleset.yml'', path = lit ''checks[0].rule.introBlocks'',
       message = lit ''introBlocks must be an integer >= 1.''\<rparr>]
   \<and> calls (check_rule demo_env (lit ''checks[0]'') (llm_entry JUndefined (JNum (Fin 0))) fresh) = []
   \<and> errors (check_rule demo_env (lit ''checks[0]'') (llm_entry (JStr [0x2003]) JUndefined) fresh) =
     [\<lparr>file = lit ''rules/a/ruleset.yml'', path = lit ''checks[0].rule.promptRef'',
       message = lit ''promptRef is required for op=llm.''\<rparr>]
   \<and> calls (check_rule demo_env (lit ''checks[0]'') (llm_entry (JStr [0x2003]) JUndefined) fresh) = []"
  using llm_promptRef_and_introBlocks [of "llm_entry (JStr (lit ''does/not/exist.md'')) JUndefined"
          demo_env "lit ''checks[0]''" fresh]
    llm_promptRef_and_introBlocks [of "llm_entry JUndefined (JNum (Fin 0))"
          demo_env "lit ''checks[0]''" fresh]
    llm_promptRef_and_introBlocks [of "llm_entry (JStr [0x2003]) JUndefined"
          demo_env "lit ''checks[0]''" fresh]
  by (simp add: llm_entry_def isObject_def demo_env_def fresh_def promptRef_errors_def
        promptRef_probes_def introBlocks_errors_def num_eval str_eval)

text \<open>
  Claim C7 as stated fails for \<open>promptRef: " "\<close>. The value is a non-empty string
  and no such path exists, so the claim asks for the error \<open>file not found\<close>; the code
  trims the value first, finds nothing left, and gives the error \<open>required\<close> without
  consulting the file system.
\<close>

theorem blank_promptRef_counterexample:
  "lit '' '' \<noteq> [] \<and> \<not> fs_access demo_env (lit '' '')
   \<and> errors (check_rule demo_env (lit ''checks[0]'') (llm_entry (JStr (lit '' '')) JUndefined) fresh) =
     [\<lparr>file = lit ''rules/a/ruleset.yml'', path = lit ''checks[0].rule.promptRef'',
       message = lit ''promptRef is required for op=llm.''\<rparr>]
   \<and> calls (check_rule demo_env (lit ''checks[0]'') (llm_entry (JStr (lit '' '')) JUndefined) fresh) = []"
  by (simp add: check_rule_def check_llm_def check_count_def check_term_density_def
        check_promptRef_def check_introBlocks_def ALLOWED_OPS_def
        llm_entry_def isObject_def demo_env_def fresh_def str_eval)

subsection \<open>Rounding to the nearest double\<close>

lemma pow2_pos [simp]: "0 < pow2 e"
  by (simp add: pow2_def)

lemma pow2_add: "pow2 (a + b) = pow2 a * pow2 b"
proof -
  have "pow2 e = 2 powi e" for e
    by (simp add: pow2_def power_int_def field_simps)
  then show ?thesis by (simp add: power_int_add)
qed

lemma pow2_powi: "pow2 e = 2 powi e"
  by (simp add: pow2_def power_int_def field_simps)

lemma pow2_mono: "e \<le> e' \<Longrightarrow> pow2 e \<le> pow2 e'"
  by (simp add: pow2_powi power_int_increasing)

lemma pow2_strict_mono: "e < e' \<Longrightarrow> pow2 e < pow2 e'"
  by (simp add: pow2_powi power_int_strict_increasing)

lemma pow2_Suc: "pow2 (e + 1) = 2 * pow2 e"
  by (simp add: pow2_powi power_int_add)

lemma pow2_nat: "0 \<le> e \<Longrightarrow> pow2 e = 2 ^ nat e"
  by (simp add: pow2_def)

lemma binade_range: "lo \<le> hi \<Longrightarrow> lo \<le> binade n lo hi a \<and> binade n lo hi a \<le> hi"
proof (induction n arbitrary: lo hi)
  case 0
  then show ?case by simp
next
  case (Suc n)
  show ?case
  proof (cases "hi \<le> lo")
    case True
    then show ?thesis using Suc.prems by simp
  next
    case False
    let ?mid = "(lo + hi + 1) div 2"
    have m: "lo < ?mid" "?mid \<le> hi" using False by auto
    show ?thesis
    proof (cases "pow2 ?mid \<le> a")
      case True
      then show ?thesis using Suc.IH [of ?mid hi] m False by (auto simp: Let_def)
    next
      case F: False
      then show ?thesis using Suc.IH [of lo "?mid - 1"] m False by (auto simp: Let_def)
    qed
  qed
qed

lemma binade_below: "lo \<le> hi \<Longrightarrow> pow2 lo \<le> a \<Longrightarrow> pow2 (binade n lo hi a) \<le> a"
proof (induction n arbitrary: lo hi)
  case 0
  then show ?case by simp
next
  case (Suc n)
  show ?case
  proof (cases "hi \<le> lo")
    case True
    then show ?thesis using Suc.prems by simp
  next
    case False
    let ?mid = "(lo + hi + 1) div 2"
    have m: "lo < ?mid" "?mid \<le> hi" using False by auto
    show ?thesis
    proof (cases "pow2 ?mid \<le> a")
      case True
      then show ?thesis using Suc.IH [of ?mid hi] m False by (auto simp: Let_def)
    next
      case F: False
      then show ?thesis using Suc.IH [of lo "?mid - 1"] Suc.prems m False by (auto simp: Let_def)
    qed
  qed
qed

lemma binade_small: "a < pow2 lo \<Longrightarrow> lo \<le> hi \<Longrightarrow> binade n lo hi a = lo"
proof (induction n arbitrary: hi)
  case 0
  then show ?case by simp
next
  case (Suc n)
  show ?case
  proof (cases "hi \<le> lo")
    case True
    then show ?thesis by simp
  next
    case False
    let ?mid = "(lo + hi + 1) div 2"
    have m: "lo < ?mid" "?mid \<le> hi" using False by auto
    have "\<not> pow2 ?mid \<le> a"
      using Suc.prems(1) pow2_mono [of lo ?mid] m by auto
    then show ?thesis using Suc.IH [of "?mid - 1"] Suc.prems m False by (auto simp: Let_def)
  qed
qed

lemma binade_above:
  "lo \<le> hi \<Longrightarrow> hi - lo < 2 ^ n \<Longrightarrow> a < pow2 (hi + 1) \<Longrightarrow> a < pow2 (binade n lo hi a + 1)"
proof (induction n arbitrary: lo hi)
  case 0
  then have "hi = lo" by simp
  then show ?case using 0 by simp
next
  case (Suc n)
  show ?case
  proof (cases "hi \<le> lo")
    case True
    then have "hi = lo" using Suc.prems by simp
    then show ?thesis using Suc.prems by simp
  next
    case False
    let ?mid = "(lo + hi + 1) div 2"
    have m: "lo < ?mid" "?mid \<le> hi" using False by auto
    show ?thesis
    proof (cases "pow2 ?mid \<le> a")
      case True
      have "hi - ?mid < 2 ^ n" using Suc.prems(2) by auto
      then show ?thesis using Suc.IH [of ?mid hi] Suc.prems m False True by (auto simp: Let_def)
    next
      case F: False
      have "(?mid - 1) - lo < 2 ^ n" using Suc.prems(2) by auto
      moreover have "a < pow2 (?mid - 1 + 1)" using F by simp
      ultimately show ?thesis
        using Suc.IH [of lo "?mid - 1"] m False F by (auto simp: Let_def)
    qed
  qed
qed

lemma binade_above_or_top:
  "lo \<le> hi \<Longrightarrow> hi - lo < 2 ^ n \<Longrightarrow>
     a < pow2 (binade n lo hi a + 1) \<or> binade n lo hi a = hi"
proof (induction n arbitrary: lo hi)
  case 0
  then show ?case by simp
next
  case (Suc n)
  show ?case
  proof (cases "hi \<le> lo")
    case True
    then show ?thesis using Suc.prems by simp
  next
    case False
    let ?mid = "(lo + hi + 1) div 2"
    have m: "lo < ?mid" "?mid \<le> hi" using False by auto
    show ?thesis
    proof (cases "pow2 ?mid \<le> a")
      case True
      have "hi - ?mid < 2 ^ n" using Suc.prems(2) by auto
      then show ?thesis using Suc.IH [of ?mid hi] m False True by (auto simp: Let_def)
    next
      case F: False
      have "(?mid - 1) - lo < 2 ^ n" using Suc.prems(2) by auto
      moreover have "a < pow2 (?mid - 1 + 1)" using F by simp
      ultimately have "a < pow2 (binade n lo (?mid - 1) a + 1)"
        using binade_above [of lo "?mid - 1" n a] m by simp
      then show ?thesis using False F by (simp add: Let_def)
    qed
  qed
qed

lemma tie_even_floor_exact: "tie_even (of_int k) k = k"
  by (simp add: tie_even_def)

lemma round_half_even_int [simp]: "round_half_even (of_int k) = k"
  by (simp add: round_half_even_def tie_even_def)

lemma round_half_even_lower: "q - 1 / 2 \<le> of_int (round_half_even q)"
proof -
  have "of_int \<lfloor>q\<rfloor> \<le> q" "q < of_int \<lfloor>q\<rfloor> + 1" by linarith+
  then show ?thesis
    by (auto simp: round_half_even_def tie_even_def)
qed

lemma round_half_even_le:
  assumes "q \<le> of_int N"
  shows "round_half_even q \<le> N"
proof (cases "q = of_int N")
  case True
  then show ?thesis by simp
next
  case False
  then have "q < of_int N" using assms by simp
  then have "\<lfloor>q\<rfloor> < N" by (simp add: floor_less_iff)
  then show ?thesis
    by (auto simp: round_half_even_def tie_even_def)
qed

lemma round64_mag:
  "x \<noteq> 0 \<Longrightarrow> round64 x = overflow64 (x < 0) (rounded_mag \<bar>x\<bar>)"
  by (simp add: round64_def rounded_mag_def)

lemma binade64_range:
  "- 1022 \<le> binade 12 (- 1022) 1023 a" "binade 12 (- 1022) 1023 a \<le> 1023"
  using binade_range [of "- 1022" 1023 12 a] by simp_all

lemma binade64_below_or_min:
  "pow2 (binade 12 (- 1022) 1023 a) \<le> a \<or> binade 12 (- 1022) 1023 a = - 1022"
proof (cases "pow2 (- 1022) \<le> a")
  case True
  then show ?thesis using binade_below [of "- 1022" 1023 a 12] by simp
next
  case False
  then show ?thesis using binade_small [of a "- 1022" 1023 12] by simp
qed

lemma binade64_above_or_top:
  "a < pow2 (binade 12 (- 1022) 1023 a + 1) \<or> binade 12 (- 1022) 1023 a = 1023"
  using binade_above_or_top [of "- 1022" 1023 12 a] by simp

text \<open>A multiple of \<open>2 ^ -53\<close> of magnitude at most one half is rounded to itself.\<close>

lemma rounded_mag_exact:
  assumes "a = of_int k / 2 ^ 53" and "0 < a" and "a \<le> 1 / 2"
  shows "rounded_mag a = a"
proof -
  let ?e = "binade 12 (- 1022) 1023 a"
  have e: "- 1022 \<le> ?e" using binade64_range by simp
  have "?e \<le> - 1"
  proof (cases "pow2 ?e \<le> a")
    case True
    then have "pow2 ?e \<le> pow2 (- 1)" using assms(3) by (simp add: pow2_def)
    then show ?thesis using pow2_strict_mono [of "- 1" ?e] by (cases "?e \<le> - 1") auto
  next
    case False
    then show ?thesis using binade64_below_or_min [of a] by simp
  qed
  then obtain m :: nat where m: "?e = - 1 - int m"
    by (metis add.commute diff_add_cancel le_iff_add minus_diff_eq uminus_add_conv_diff zle_iff_zadd)
  have "?e - 52 = - int (53 + m)" using m by simp
  then have "pow2 (?e - 52) = 1 / 2 ^ (53 + m)"
    by (simp only: pow2_def) simp
  then have u: "pow2 (?e - 52) = 1 / (2 ^ 53 * 2 ^ m)"
    by (simp add: power_add)
  have "a / pow2 (?e - 52) = of_int (k * 2 ^ m)"
    by (simp only: u) (simp add: assms(1))
  then have r: "round_half_even (a / pow2 (?e - 52)) = k * 2 ^ m"
    using round_half_even_int [of "k * 2 ^ m"] by simp
  have "rounded_mag a = of_int (k * 2 ^ m) * pow2 (?e - 52)"
    unfolding rounded_mag_def round_ulp_def r ..
  also have "\<dots> = of_int k / 2 ^ 53"
    unfolding u by simp
  finally show ?thesis unfolding assms(1) [symmetric] .
qed

lemma round_ulp_lower:
  assumes "0 < u"
  shows "a - u / 2 \<le> round_ulp a u"
proof -
  have "a / u - 1 / 2 \<le> of_int (round_half_even (a / u))"
    by (rule round_half_even_lower)
  then have "(a / u - 1 / 2) * u \<le> of_int (round_half_even (a / u)) * u"
    using assms by (simp add: mult_right_mono)
  moreover have "(a / u - 1 / 2) * u = a - u / 2"
    using assms by (simp add: field_simps)
  ultimately show ?thesis by (simp add: round_ulp_def)
qed

lemma round_ulp_nonneg:
  assumes "0 < u" and "0 \<le> a"
  shows "0 \<le> round_ulp a u"
proof -
  have "0 \<le> a / u" using assms by (simp add: divide_nonneg_pos)
  then have "- 1 / 2 \<le> (of_int (round_half_even (a / u)) :: rat)"
    using round_half_even_lower [of "a / u"] by linarith
  then have "0 \<le> round_half_even (a / u)" by linarith
  then show ?thesis using assms by (simp add: round_ulp_def)
qed

lemma round_ulp_upper:
  assumes "0 < u" and "a \<le> of_int N * u"
  shows "round_ulp a u \<le> of_int N * u"
proof -
  have "a / u \<le> of_int N" using assms by (simp add: pos_divide_le_eq)
  then have "round_half_even (a / u) \<le> N" by (rule round_half_even_le)
  then have "(of_int (round_half_even (a / u)) :: rat) \<le> of_int N" by simp
  then show ?thesis using assms by (simp add: round_ulp_def mult_right_mono)
qed

lemma rounded_mag_nonneg: "0 \<le> a \<Longrightarrow> 0 \<le> rounded_mag a"
  unfolding rounded_mag_def by (rule round_ulp_nonneg) simp_all

lemma pow2_numeral [simp]: "pow2 (numeral k) = 2 ^ numeral k"
  by (simp add: pow2_def)

lemma pow2_split52: "pow2 e = pow2 (e - 52) * 2 ^ 52"
  using pow2_add [of "e - 52" 52] by simp

lemma pow2_split53: "pow2 (e + 1) = pow2 (e - 52) * 2 ^ 53"
  using pow2_add [of "e - 52" 53] by (simp add: add.commute)

lemma rounded_mag_large:
  assumes "1 / 2 < a"
  shows "1 / 4 < rounded_mag a"
proof -
  define u where "u = pow2 (binade 12 (- 1022) 1023 a - 52)"
  have upos: "0 < u" by (simp add: u_def)
  have "pow2 (- 1022) \<le> pow2 (- 1)" by (rule pow2_mono) simp
  then have "pow2 (- 1022) \<le> a" using assms by (simp add: pow2_def)
  then have "pow2 (binade 12 (- 1022) 1023 a) \<le> a"
    using binade_below [of "- 1022" 1023 a 12] by simp
  then have "u * 2 ^ 52 \<le> a"
    unfolding u_def using pow2_split52 [of "binade 12 (- 1022) 1023 a"] by simp
  moreover have "u \<le> u * 2 ^ 52" using upos by simp
  ultimately have "u \<le> a" by linarith
  moreover have "a - u / 2 \<le> rounded_mag a"
    unfolding rounded_mag_def u_def [symmetric] using upos by (rule round_ulp_lower)
  ultimately show ?thesis using assms by linarith
qed

text \<open>A finite result of rounding that is at least one half is a multiple of \<open>2 ^ -53\<close>.\<close>

lemma rounded_mag_grid:
  assumes "0 < a" and "1 / 2 \<le> rounded_mag a"
  shows "\<exists>k. rounded_mag a = of_int k / 2 ^ 53"
proof -
  define e where "e = binade 12 (- 1022) 1023 a"
  define u where "u = pow2 (e - 52)"
  have upos: "0 < u" by (simp add: u_def)
  have rm: "rounded_mag a = of_int (round_half_even (a / u)) * u"
    by (simp add: rounded_mag_def round_ulp_def u_def e_def)
  show ?thesis
  proof (cases "- 1 \<le> e")
    case True
    have "pow2 (e + 1) = u * 2 ^ 53"
      unfolding u_def by (rule pow2_split53)
    moreover have "pow2 (e + 1) = 2 ^ nat (e + 1)"
      using True by (intro pow2_nat) simp
    ultimately have "u = 2 ^ nat (e + 1) / 2 ^ 53"
      by (simp add: field_simps)
    then have "rounded_mag a = of_int (round_half_even (a / u) * 2 ^ nat (e + 1)) / 2 ^ 53"
      unfolding rm by simp
    then show ?thesis by blast
  next
    case False
    then have "e \<noteq> 1023" by simp
    then have lt: "a < pow2 (e + 1)"
      using binade64_above_or_top [of a] by (simp add: e_def)
    have p: "pow2 (e + 1) = of_int (2 ^ 53) * u"
      unfolding u_def using pow2_split53 [of e] by simp
    have "round_ulp a u \<le> of_int (2 ^ 53) * u"
      using upos lt p by (intro round_ulp_upper) simp_all
    then have "rounded_mag a \<le> pow2 (e + 1)"
      using p by (simp add: rounded_mag_def u_def e_def)
    moreover have "pow2 (e + 1) \<le> pow2 (- 1)" using False by (intro pow2_mono) simp
    ultimately have "rounded_mag a \<le> 1 / 2" by (simp add: pow2_def)
    then have "rounded_mag a = of_int (2 ^ 52) / 2 ^ 53" using assms(2) by simp
    then show ?thesis by blast
  qed
qed

lemma le_overflow64:
  assumes "0 \<le> m" and "t < 2 ^ 1024"
  shows "num_le (Math_abs (overflow64 neg m)) (Fin t) \<longleftrightarrow> m \<le> t"
  using assms by (auto simp: overflow64_def)

lemma round64_grid:
  assumes "round64 x = Fin r" and "1 / 2 \<le> \<bar>r\<bar>"
  shows "\<exists>k. r = of_int k / 2 ^ 53"
proof -
  have x: "x \<noteq> 0" using assms by (auto simp: round64_def)
  then have a: "0 < \<bar>x\<bar>" by simp
  have m: "0 \<le> rounded_mag \<bar>x\<bar>" by (rule rounded_mag_nonneg) simp
  have "overflow64 (x < 0) (rounded_mag \<bar>x\<bar>) = Fin r"
    using assms(1) round64_mag [OF x] by simp
  then have r: "r = (if x < 0 then - rounded_mag \<bar>x\<bar> else rounded_mag \<bar>x\<bar>)"
    by (auto simp: overflow64_def split: if_splits)
  then have "\<bar>r\<bar> = rounded_mag \<bar>x\<bar>" using m by auto
  then obtain k where k: "rounded_mag \<bar>x\<bar> = of_int k / 2 ^ 53"
    using rounded_mag_grid [OF a] assms(2) by auto
  show ?thesis
  proof (cases "x < 0")
    case True
    then have "r = of_int (- k) / 2 ^ 53" using r k by simp
    then show ?thesis by blast
  next
    case False
    then have "r = of_int k / 2 ^ 53" using r k by simp
    then show ?thesis by blast
  qed
qed

lemma tolerance_grid_iff:
  fixes K :: int
  assumes "0 \<le> K"
  shows "(of_int K / 2 ^ 53 :: rat) \<le> 7378697629483821 / 2 ^ 66 \<longleftrightarrow>
         (of_int K / 2 ^ 53 :: rat) \<le> 1 / 10000"
proof -
  have "(of_int K / 2 ^ 53 :: rat) \<le> 7378697629483821 / 2 ^ 66 \<longleftrightarrow>
        (of_int (K * 8192) :: rat) \<le> of_int 7378697629483821"
    by (simp add: field_simps)
  also have "\<dots> \<longleftrightarrow> K * 8192 \<le> 7378697629483821"
    by (simp only: of_int_le_iff)
  also have "\<dots> \<longleftrightarrow> K \<le> 900719925474"
    by linarith
  also have "\<dots> \<longleftrightarrow> K * 10000 \<le> 9007199254740992"
    by linarith
  also have "\<dots> \<longleftrightarrow> (of_int (K * 10000) :: rat) \<le> of_int 9007199254740992"
    by (simp only: of_int_le_iff)
  also have "\<dots> \<longleftrightarrow> (of_int K / 2 ^ 53 :: rat) \<le> 1 / 10000"
    by (simp add: field_simps)
  finally show ?thesis .
qed

text \<open>
  The tolerance test of the code on a double \<open>q\<close> says that \<open>q\<close> differs from \<open>1\<close>
  by at most one ten-thousandth: the subtraction is exact where it matters, and no
  double lies between one ten-thousandth and the double nearest to it.
\<close>

lemma approxEquals_one_iff:
  assumes grid: "1 / 2 \<le> \<bar>q\<bar> \<longrightarrow> (\<exists>k. q = of_int k / 2 ^ 53)"
  shows "approxEquals (Fin q) (Fin 1) tolerance \<longleftrightarrow> \<bar>q - 1\<bar> \<le> 1 / 10000"
proof (cases "q = 1")
  case True
  then show ?thesis
    by (simp add: approxEquals_def num_sub_def round64_def tolerance_value)
next
  case False
  define x where "x = q - 1"
  have x: "x \<noteq> 0" using False by (simp add: x_def)
  define m where "m = rounded_mag \<bar>x\<bar>"
  have m0: "0 \<le> m" unfolding m_def by (rule rounded_mag_nonneg) simp
  have "approxEquals (Fin q) (Fin 1) tolerance \<longleftrightarrow>
        num_le (Math_abs (overflow64 (x < 0) m)) (Fin (7378697629483821 / 2 ^ 66))"
    using round64_mag [OF x]
    by (simp add: approxEquals_def num_sub_def tolerance_value x_def m_def)
  also have "\<dots> \<longleftrightarrow> m \<le> 7378697629483821 / 2 ^ 66"
    using m0 by (intro le_overflow64) simp_all
  finally have lhs: "approxEquals (Fin q) (Fin 1) tolerance \<longleftrightarrow> m \<le> 7378697629483821 / 2 ^ 66" .
  show ?thesis
  proof (cases "\<bar>x\<bar> \<le> 1 / 2")
    case True
    then have "1 / 2 \<le> \<bar>q\<bar>" by (auto simp: x_def abs_if split: if_splits)
    then obtain k where k: "q = of_int k / 2 ^ 53" using grid by blast
    have "x = of_int (k - 2 ^ 53) / 2 ^ 53"
      by (simp add: x_def k field_simps)
    then have ax: "\<bar>x\<bar> = of_int \<bar>k - 2 ^ 53\<bar> / 2 ^ 53"
      by (simp add: abs_divide del: of_int_diff)
    have mx: "m = \<bar>x\<bar>"
      unfolding m_def using ax x True by (intro rounded_mag_exact [of _ "\<bar>k - 2 ^ 53\<bar>"]) simp_all
    have "m \<le> 7378697629483821 / 2 ^ 66 \<longleftrightarrow>
          (of_int \<bar>k - 2 ^ 53\<bar> / 2 ^ 53 :: rat) \<le> 7378697629483821 / 2 ^ 66"
      by (simp only: mx ax)
    also have "\<dots> \<longleftrightarrow> (of_int \<bar>k - 2 ^ 53\<bar> / 2 ^ 53 :: rat) \<le> 1 / 10000"
      by (rule tolerance_grid_iff) simp
    also have "\<dots> \<longleftrightarrow> \<bar>x\<bar> \<le> 1 / 10000"
      by (simp only: ax)
    finally show ?thesis using lhs by (simp only: x_def)
  next
    case F: False
    then have "1 / 4 < m" unfolding m_def by (intro rounded_mag_large) simp
    then have "\<not> m \<le> 7378697629483821 / 2 ^ 66" by simp
    moreover have "\<not> \<bar>q - 1\<bar> \<le> 1 / 10000" using F by (simp add: x_def)
    ultimately show ?thesis using lhs by simp
  qed
qed

lemma num_add_Fin:
  "num_add x y = Fin r \<Longrightarrow> \<exists>a b. x = Fin a \<and> y = Fin b \<and> round64 (a + b) = Fin r"
  by (cases x; cases y) auto

lemma float_sum5_grid:
  assumes "float_sum5 a b c d e = Fin q" and "1 / 2 \<le> \<bar>q\<bar>"
  shows "\<exists>k. q = of_int k / 2 ^ 53"
proof -
  obtain u v where "round64 (u + v) = Fin q"
    using assms(1) num_add_Fin unfolding float_sum5_def by blast
  then show ?thesis using assms(2) by (rule round64_grid)
qed

lemma approxEquals_float_sum5:
  "approxEquals (float_sum5 a b c d e) (Fin 1) tolerance \<longleftrightarrow>
     within_tolerance (float_sum5 a b c d e)"
proof (cases "float_sum5 a b c d e")
  case (Fin q)
  then show ?thesis
    using approxEquals_one_iff [of q] float_sum5_grid [OF Fin] by auto
next
  case NaN
  then show ?thesis by (simp add: approxEquals_def num_sub_def)
next
  case PInf
  then show ?thesis by (simp add: approxEquals_def num_sub_def tolerance_value)
next
  case NInf
  then show ?thesis by (simp add: approxEquals_def num_sub_def tolerance_value)
qed

subsection \<open>The weights\<close>

lemma num_add_NaN_right [simp]: "num_add x NaN = NaN"
  by (cases x) auto

lemma foldl_num_add_NaN: "foldl (\<lambda>acc k. num_add acc (f k)) NaN ks = NaN"
  by (induction ks) auto

lemma foldl_num_add_absorbs:
  "\<exists>k\<in>set ks. f k = NaN \<Longrightarrow> foldl (\<lambda>acc k. num_add acc (f k)) a ks = NaN"
proof (induction ks arbitrary: a)
  case Nil
  then show ?case by simp
next
  case (Cons k ks)
  show ?case
  proof (cases "f k = NaN")
    case True
    then show ?thesis by (simp add: foldl_num_add_NaN)
  next
    case False
    with Cons.prems have "\<exists>k\<in>set ks. f k = NaN" by auto
    then show ?thesis using Cons.IH by simp
  qed
qed

lemma approxEquals_NaN [simp]: "\<not> approxEquals NaN b eps"
  by (simp add: approxEquals_def num_sub_def)

lemma no_missing_iff:
  "filter (\<lambda>k. typeof (get w k) \<noteq> ''number'') ks = [] \<longleftrightarrow>
     (\<forall>k\<in>set ks. typeof (get w k) = ''number'')"
  by (auto simp: filter_empty_conv)

lemma check_weights_numeric:
  assumes "isObject (get ruleset (lit ''weights''))"
    and "\<forall>k\<in>set REQUIRED_WEIGHTS. typeof (get (get ruleset (lit ''weights'')) k) = ''number''"
  shows "check_weights E ruleset s =
     (if approxEquals (weights_sum (get ruleset (lit ''weights''))) (Fin 1) tolerance then s
      else warn (sum_warning (cur_file E) (weights_sum (get ruleset (lit ''weights'')))) s)"
proof -
  have "get ruleset (lit ''weights'') \<noteq> JUndefined"
    using assms(1) by (auto simp: isObject_def)
  moreover have
    "filter (\<lambda>k. typeof (get (get ruleset (lit ''weights'')) k) \<noteq> ''number'') REQUIRED_WEIGHTS = []"
    using assms(2) by (simp add: no_missing_iff)
  ultimately show ?thesis
    using assms(1) by (simp add: check_weights_def Let_def)
qed

lemma weights_sum_float_sum5:
  assumes "get w (lit ''structure'') = JNum a" and "get w (lit ''answerability'') = JNum b"
    and "get w (lit ''neutrality'') = JNum c" and "get w (lit ''topical_focus'') = JNum d"
    and "get w (lit ''entity_binding'') = JNum e"
  shows "weights_sum w = float_sum5 a b c d e"
    and "\<forall>k\<in>set REQUIRED_WEIGHTS. typeof (get w k) = ''number''"
  using assms by (simp_all add: weights_sum_def REQUIRED_WEIGHTS_def float_sum5_def)

lemma show_nat_digits: "\<forall>c\<in>set (show_nat n). 0x30 \<le> c \<and> c \<le> 0x39"
proof (induction n rule: show_nat.induct)
  case (1 n)
  show ?case
  proof (cases "n < 10")
    case True
    then show ?thesis by (subst show_nat.simps) simp
  next
    case False
    have "n mod 10 < 10" by simp
    then have "0x30 + n mod 10 \<le> 0x39" by linarith
    then show ?thesis using 1 False by (subst show_nat.simps) auto
  qed
qed

lemma show_nat_not_Nil: "show_nat n \<noteq> []"
  by (subst show_nat.simps) simp

lemma fixed_digits_shape:
  "\<exists>i f. fixed_digits k q = i @ lit ''.'' @ f \<and> i \<noteq> [] \<and> length f = k \<and>
         (\<forall>c\<in>set (i @ f). 0x30 \<le> c \<and> c \<le> 0x39)"
proof -
  let ?m = "pad_zeros (k + 1) (show_nat (nat \<lfloor>q * 10 ^ k + 1 / 2\<rfloor>))"
  have len: "k + 1 \<le> length ?m"
    by (simp add: pad_zeros_def)
  have dig: "\<forall>c\<in>set ?m. 0x30 \<le> c \<and> c \<le> 0x39"
    using show_nat_digits by (auto simp: pad_zeros_def)
  have "fixed_digits k q = take (length ?m - k) ?m @ lit ''.'' @ drop (length ?m - k) ?m"
    by (simp add: fixed_digits_def fixed_point_def)
  moreover have "take (length ?m - k) ?m \<noteq> []" using len by auto
  moreover have "length (drop (length ?m - k) ?m) = k" using len by auto
  moreover have "\<forall>c\<in>set (take (length ?m - k) ?m @ drop (length ?m - k) ?m).
      0x30 \<le> c \<and> c \<le> 0x39"
    using dig by simp
  ultimately show ?thesis by blast
qed

lemma toFixed_shape:
  assumes "\<bar>q\<bar> < 10 ^ 21"
  shows "\<exists>i f. toFixed k (Fin q) = (if q < 0 then lit ''-'' else []) @ i @ lit ''.'' @ f \<and>
           i \<noteq> [] \<and> length f = k \<and> (\<forall>c\<in>set (i @ f). 0x30 \<le> c \<and> c \<le> 0x39)"
  using assms fixed_digits_shape [of k "\<bar>q\<bar>"] by auto

text \<open>
  Claim C4, as amended. When \<open>weights\<close> is an object and each of the five required
  keys has a value of type number, the sum is computed by floating-point additions from
  left to right. No warning is given when that sum is finite and differs from \<open>1\<close> by
  at most one ten-thousandth, and exactly one is given otherwise; the field gives no
  error. The warning carries \<open>sum.toFixed(6)\<close>: for a finite sum below \<open>10 ^ 21\<close> in
  magnitude that is an optional minus sign, digits, a point and six digits; an infinite
  sum prints as \<open>Infinity\<close> or \<open>-Infinity\<close> (and \<open>NaN\<close> prints as \<open>NaN\<close>), a
  finite sum from \<open>10 ^ 21\<close> upwards as \<open>Number::toString\<close> prints it.
\<close>

theorem weights_sum_within_tolerance:
  assumes "isObject (get ruleset (lit ''weights''))"
    and "get (get ruleset (lit ''weights'')) (lit ''structure'') = JNum a"
    and "get (get ruleset (lit ''weights'')) (lit ''answerability'') = JNum b"
    and "get (get ruleset (lit ''weights'')) (lit ''neutrality'') = JNum c"
    and "get (get ruleset (lit ''weights'')) (lit ''topical_focus'') = JNum d"
    and "get (get ruleset (lit ''weights'')) (lit ''entity_binding'') = JNum e"
  shows "warnings (check_weights E ruleset s) = warnings s @
           (if within_tolerance (float_sum5 a b c d e) then []
            else [lit ''WARN '' @ cur_file E @ lit '' weights: sum is '' @
                  toFixed 6 (float_sum5 a b c d e) @
                  lit '', expected ~1.0 ('' @ [0xC2, 0xB1] @ lit ''1e-4).''])
       \<and> errors (check_weights E ruleset s) = errors s
       \<and> (\<forall>q. float_sum5 a b c d e = Fin q \<and> \<bar>q\<bar> < 10 ^ 21 \<longrightarrow>
            (\<exists>i f. toFixed 6 (float_sum5 a b c d e) =
                     (if q < 0 then lit ''-'' else []) @ i @ lit ''.'' @ f \<and>
                   i \<noteq> [] \<and> length f = 6 \<and> (\<forall>c\<in>set (i @ f). 0x30 \<le> c \<and> c \<le> 0x39)))
       \<and> (\<forall>q. float_sum5 a b c d e = Fin q \<and> 10 ^ 21 \<le> \<bar>q\<bar> \<longrightarrow>
            toFixed 6 (float_sum5 a b c d e) = Number_toString (Fin q))
       \<and> (float_sum5 a b c d e = PInf \<longrightarrow> toFixed 6 (float_sum5 a b c d e) = lit ''Infinity'')
       \<and> (float_sum5 a b c d e = NInf \<longrightarrow> toFixed 6 (float_sum5 a b c d e) = lit ''-Infinity'')
       \<and> (float_sum5 a b c d e = NaN \<longrightarrow> toFixed 6 (float_sum5 a b c d e) = lit ''NaN'')"
proof -
  note w = weights_sum_float_sum5 [OF assms(2-6)]
  have "check_weights E ruleset s =
      (if within_tolerance (float_sum5 a b c d e) then s
       else warn (sum_warning (cur_file E) (float_sum5 a b c d e)) s)"
    using check_weights_numeric [OF assms(1) w(2), of E s]
    by (simp add: w(1) approxEquals_float_sum5)
  moreover have "\<exists>i f. toFixed 6 (Fin q) = (if q < 0 then lit ''-'' else []) @ i @ lit ''.'' @ f \<and>
      i \<noteq> [] \<and> length f = 6 \<and> (\<forall>c\<in>set (i @ f). 0x30 \<le> c \<and> c \<le> 0x39)"
    if "\<bar>q\<bar> < 10 ^ 21" for q
    using that by (rule toFixed_shape)
  ultimately show ?thesis
    by (auto simp: sum_warning_def)
qed

text \<open>
  The weights \<open>0.25, 0.25, 0.25, 0.125, 0.125\<close> sum to \<open>1\<close>, and the weights
  \<open>1, 0.0001, 0, 0, 0\<close> to a double just below \<open>1.0001\<close>: neither gives a warning. The
  weights \<open>1, 0.0002, 0, 0, 0\<close> sum to the double next to \<open>1.0002\<close> and the weights
  \<open>0.5, 0, 0, 0, 0\<close> to \<open>0.5\<close>: each gives the one warning, with the sum printed as
  \<open>1.000200\<close> and as \<open>0.500000\<close>.
\<close>

lemma sum_exact_example:
  "float_sum5 (Fin (1 / 4)) (Fin (1 / 4)) (Fin (1 / 4)) (Fin (1 / 8)) (Fin (1 / 8)) = Fin 1"
  by (simp add: float_sum5_def r64)

lemma sum_edge_example:
  "float_sum5 (Fin 1) (round64 (1 / 10000)) (Fin 0) (Fin 0) (Fin 0) =
     Fin (4504049987333233 / 2 ^ 52)"
  by (simp add: float_sum5_def r64)

lemma sum_off_example:
  "float_sum5 (Fin 1) (round64 (2 / 10000)) (Fin 0) (Fin 0) (Fin 0) =
     Fin (4504500347295970 / 2 ^ 52)"
  by (simp add: float_sum5_def r64)

lemma sum_half_example:
  "float_sum5 (Fin (1 / 2)) (Fin 0) (Fin 0) (Fin 0) (Fin 0) = Fin (1 / 2)"
  by (simp add: float_sum5_def r64)

lemma toFixed_off_example: "toFixed 6 (Fin (4504500347295970 / 2 ^ 52)) = lit ''1.000200''"
  by (simp add: fixed_digits_def fixed_point_def pad_zeros_def floor_rat_numeral str_eval)

lemma toFixed_half_example: "toFixed 6 (Fin (1 / 2)) = lit ''0.500000''"
  by (simp add: fixed_digits_def fixed_point_def pad_zeros_def floor_rat_numeral str_eval)

lemma within_tolerance_examples:
  "within_tolerance (Fin 1)" "within_tolerance (Fin (4504049987333233 / 2 ^ 52))"
  "\<not> within_tolerance (Fin (4504500347295970 / 2 ^ 52))" "\<not> within_tolerance (Fin (1 / 2))"
  by simp_all

theorem weights_sum_within_tolerance_witness:
  "warnings (check_weights demo_env
      (weights_doc (Fin (1 / 4)) (Fin (1 / 4)) (Fin (1 / 4)) (Fin (1 / 8)) (Fin (1 / 8))) fresh) = []
   \<and> warnings (check_weights demo_env
      (weights_doc (Fin 1) (round64 (1 / 10000)) (Fin 0) (Fin 0) (Fin 0)) fresh) = []
   \<and> warnings (check_weights demo_env
      (weights_doc (Fin 1) (round64 (2 / 10000)) (Fin 0) (Fin 0) (Fin 0)) fresh) =
     [lit ''WARN rules/a/ruleset.yml weights: sum is 1.000200, expected ~1.0 ('' @
      [0xC2, 0xB1] @ lit ''1e-4).'']
   \<and> errors (check_weights demo_env
      (weights_doc (Fin 1) (round64 (2 / 10000)) (Fin 0) (Fin 0) (Fin 0)) fresh) = []
   \<and> warnings (check_weights demo_env
      (weights_doc (Fin (1 / 2)) (Fin 0) (Fin 0) (Fin 0) (Fin 0)) fresh) =
     [lit ''WARN rules/a/ruleset.yml weights: sum is 0.500000, expected ~1.0 ('' @
      [0xC2, 0xB1] @ lit ''1e-4).'']"
proof -
  have obj: "isObject (get (weights_doc a b c d e) (lit ''weights''))" for a b c d e
    by (simp add: weights_doc_def isObject_def)
  have key: "get (get (weights_doc a b c d e) (lit ''weights'')) (lit ''structure'') = JNum a"
    "get (get (weights_doc a b c d e) (lit ''weights'')) (lit ''answerability'') = JNum b"
    "get (get (weights_doc a b c d e) (lit ''weights'')) (lit ''neutrality'') = JNum c"
    "get (get (weights_doc a b c d e) (lit ''weights'')) (lit ''topical_focus'') = JNum d"
    "get (get (weights_doc a b c d e) (lit ''weights'')) (lit ''entity_binding'') = JNum e"
    for a b c d e
    by (simp_all add: weights_doc_def)
  note t = weights_sum_within_tolerance [OF obj key, where E = demo_env and s = fresh]
  show ?thesis
    using t [of "Fin (1 / 4)" "Fin (1 / 4)" "Fin (1 / 4)" "Fin (1 / 8)" "Fin (1 / 8)", THEN conjunct1]
      t [of "Fin 1" "round64 (1 / 10000)" "Fin 0" "Fin 0" "Fin 0", THEN conjunct1]
      t [of "Fin 1" "round64 (2 / 10000)" "Fin 0" "Fin 0" "Fin 0", THEN conjunct1]
      t [of "Fin 1" "round64 (2 / 10000)" "Fin 0" "Fin 0" "Fin 0", THEN conjunct2, THEN conjunct1]
      t [of "Fin (1 / 2)" "Fin 0" "Fin 0" "Fin 0" "Fin 0", THEN conjunct1]
    apply (simp only: sum_exact_example sum_edge_example sum_off_example sum_half_example
          toFixed_off_example toFixed_half_example within_tolerance_examples)
    apply (simp add: demo_env_def fresh_def)
    done
qed

lemma sum_infinite_example:
  "weights_sum (get (weights_doc PInf (Fin 0) (Fin 0) (Fin 0) (Fin 0)) (lit ''weights'')) = PInf"
  by (simp add: weights_doc_def weights_sum_def REQUIRED_WEIGHTS_def)

lemma sum_large_example:
  "weights_sum (get (weights_doc (Fin (10 ^ 21)) (Fin 0) (Fin 0) (Fin 0) (Fin 0)) (lit ''weights'')) =
     Fin (10 ^ 21)"
  by (simp add: weights_doc_def weights_sum_def REQUIRED_WEIGHTS_def r64)

lemma approxEquals_large_example: "\<not> approxEquals (Fin (10 ^ 21)) (Fin 1) tolerance"
  by (simp add: approxEquals_def num_sub_def tolerance_value r64)

lemma toFixed_large_example: "toFixed 6 (Fin (10 ^ 21)) = lit ''1e+21''"
  by (simp add: toString_eval r64 str_eval)

text \<open>
  Claim C4 as the specification words it fails where it says that the reported sum is
  formatted to six decimal places: for the weights \<open>.inf, 0, 0, 0, 0\<close> the warning reads
  \<open>sum is Infinity\<close>, and for \<open>1e21, 0, 0, 0, 0\<close> it reads \<open>sum is 1e+21\<close>.
\<close>

theorem weights_sum_not_six_decimals:
  "warnings (check_weights demo_env (weights_doc PInf (Fin 0) (Fin 0) (Fin 0) (Fin 0)) fresh) =
     [lit ''WARN rules/a/ruleset.yml weights: sum is Infinity, expected ~1.0 ('' @
      [0xC2, 0xB1] @ lit ''1e-4).'']
   \<and> warnings (check_weights demo_env
       (weights_doc (Fin (10 ^ 21)) (Fin 0) (Fin 0) (Fin 0) (Fin 0)) fresh) =
     [lit ''WARN rules/a/ruleset.yml weights: sum is 1e+21, expected ~1.0 ('' @
      [0xC2, 0xB1] @ lit ''1e-4).'']"
proof -
  have obj: "isObject (get (weights_doc a b c d e) (lit ''weights''))" for a b c d e
    by (simp add: weights_doc_def isObject_def)
  have num: "\<forall>k\<in>set REQUIRED_WEIGHTS.
      typeof (get (get (weights_doc a b c d e) (lit ''weights'')) k) = ''number''" for a b c d e
    by (simp add: weights_doc_def REQUIRED_WEIGHTS_def)
  show ?thesis
    apply (simp only: check_weights_numeric [OF obj num] sum_infinite_example sum_large_example
        approxEquals_large_example sum_warning_def toFixed_large_example)
    apply (simp add: approxEquals_def num_sub_def tolerance_value demo_env_def fresh_def warn_def)
    done
qed

text \<open>
  Claim C10. When \<open>weights\<close> is an object, each of the five required keys has a value of
  type number and at least one of them is \<open>NaN\<close>: no key counts as missing or
  non-numeric, the computed sum is \<open>NaN\<close>, and the sum warning is given with the sum
  printed as \<open>NaN\<close>.
\<close>

theorem weights_nan_sum_reported:
  assumes "isObject (get ruleset (lit ''weights''))"
    and "\<forall>k\<in>set REQUIRED_WEIGHTS. typeof (get (get ruleset (lit ''weights'')) k) = ''number''"
    and "\<exists>k\<in>set REQUIRED_WEIGHTS. get (get ruleset (lit ''weights'')) k = JNum NaN"
  shows "filter (\<lambda>k. typeof (get (get ruleset (lit ''weights'')) k) \<noteq> ''number'') REQUIRED_WEIGHTS = []
       \<and> weights_sum (get ruleset (lit ''weights'')) = NaN
       \<and> warnings (check_weights E ruleset s) = warnings s @
           [lit ''WARN '' @ cur_file E @ lit '' weights: sum is NaN, expected ~1.0 ('' @
            [0xC2, 0xB1] @ lit ''1e-4).'']
       \<and> errors (check_weights E ruleset s) = errors s"
proof -
  have "\<exists>k\<in>set REQUIRED_WEIGHTS. Number (get (get ruleset (lit ''weights'')) k) = NaN"
    using assms(3) by force
  then have nan: "weights_sum (get ruleset (lit ''weights'')) = NaN"
    unfolding weights_sum_def by (rule foldl_num_add_absorbs)
  show ?thesis
    using check_weights_numeric [OF assms(1,2), of E s] assms(2) nan
    by (simp add: no_missing_iff sum_warning_def)
qed

text \<open>The weights \<open>0.1, 0.2, .nan, 0.2, 0.2\<close>.\<close>

theorem weights_nan_sum_reported_witness:
  "warnings (check_weights demo_env
      (weights_doc (round64 (1 / 10)) (round64 (2 / 10)) NaN (round64 (2 / 10)) (round64 (2 / 10)))
      fresh) =
     [lit ''WARN rules/a/ruleset.yml weights: sum is NaN, expected ~1.0 ('' @
      [0xC2, 0xB1] @ lit ''1e-4).'']"
proof -
  let ?d = "weights_doc (round64 (1 / 10)) (round64 (2 / 10)) NaN (round64 (2 / 10)) (round64 (2 / 10))"
  have obj: "isObject (get ?d (lit ''weights''))"
    by (simp add: weights_doc_def isObject_def)
  have num: "\<forall>k\<in>set REQUIRED_WEIGHTS. typeof (get (get ?d (lit ''weights'')) k) = ''number''"
    by (simp add: weights_doc_def REQUIRED_WEIGHTS_def)
  have nan: "\<exists>k\<in>set REQUIRED_WEIGHTS. get (get ?d (lit ''weights'')) k = JNum NaN"
    by (simp add: weights_doc_def REQUIRED_WEIGHTS_def)
  show ?thesis
    using weights_nan_sum_reported [OF obj num nan, of demo_env fresh]
    by (simp add: demo_env_def fresh_def)
qed

subsection \<open>Duplicate ids\<close>

lemma valid_id_isObject: "valid_id c \<Longrightarrow> isObject c"
  by (cases c) (auto simp: valid_id_def isObject_def)

lemma is_dup_dup_error [simp]: "is_dup (dup_error E i x)"
  by (simp add: is_dup_def dup_error_def)

lemma plain_checkI:
  assumes "\<And>s. errors (f s) = errors s @ errors (f fresh)"
    and "\<And>s. seenIds (f s) = seenIds s"
    and "\<And>s. warnings (f s) = warnings s"
    and "\<forall>d\<in>set (errors (f fresh)). \<not> is_dup d"
  shows "plain_check f"
  unfolding plain_check_def using assms by blast

lemma plain_check_errors:
  assumes "plain_check f"
  shows "errors (f s) = errors s @ errors (f fresh)"
proof -
  obtain es where es: "\<And>s. errors (f s) = errors s @ es"
    using assms unfolding plain_check_def by blast
  have "errors (f fresh) = es" using es [of fresh] by (simp add: fresh_def)
  then show ?thesis using es [of s] by simp
qed

lemma plain_check_seenIds: "plain_check f \<Longrightarrow> seenIds (f s) = seenIds s"
  unfolding plain_check_def by blast

lemma plain_check_warnings: "plain_check f \<Longrightarrow> warnings (f s) = warnings s"
  unfolding plain_check_def by blast

lemma plain_check_clean:
  assumes "plain_check f"
  shows "filter is_dup (errors (f fresh)) = []"
proof -
  obtain es where es: "\<And>s. errors (f s) = errors s @ es" "\<forall>d\<in>set es. \<not> is_dup d"
    using assms unfolding plain_check_def by blast
  have "errors (f fresh) = es" using es(1) [of fresh] by (simp add: fresh_def)
  then show ?thesis using es(2) by (simp add: filter_empty_conv)
qed

lemma plain_skip: "plain_check (\<lambda>s. s)"
  unfolding plain_check_def by (rule exI [of _ "[]"]) simp

lemma plain_comp:
  assumes "plain_check f" and "plain_check g"
  shows "plain_check (\<lambda>s. g (f s))"
proof -
  obtain es where es: "\<forall>d\<in>set es. \<not> is_dup d"
      "\<And>s. errors (f s) = errors s @ es" "\<And>s. seenIds (f s) = seenIds s"
      "\<And>s. warnings (f s) = warnings s"
    using assms(1) unfolding plain_check_def by blast
  obtain es' where es': "\<forall>d\<in>set es'. \<not> is_dup d"
      "\<And>s. errors (g s) = errors s @ es'" "\<And>s. seenIds (g s) = seenIds s"
      "\<And>s. warnings (g s) = warnings s"
    using assms(2) unfolding plain_check_def by blast
  show ?thesis
    unfolding plain_check_def
    by (rule exI [of _ "es @ es'"]) (use es es' in auto)
qed

lemma plain_if:
  "plain_check f \<Longrightarrow> plain_check g \<Longrightarrow> plain_check (\<lambda>s. if b then f s else g s)"
  by (cases b) simp_all

lemma plain_severity: "plain_check (check_severity E base c)"
  by (rule plain_checkI) (simp_all add: check_severity_def fresh_def is_dup_def)

lemma plain_dimension: "plain_check (check_dimension E base c)"
  by (rule plain_checkI) (simp_all add: check_dimension_def fresh_def is_dup_def)

lemma plain_penalty: "plain_check (check_penalty E base c)"
  by (rule plain_checkI) (simp_all add: check_penalty_def fresh_def is_dup_def)

lemma plain_message: "plain_check (check_message E base c)"
  by (rule plain_checkI) (simp_all add: check_message_def fresh_def is_dup_def)

lemma plain_selector: "plain_check (check_selector E base v)"
  by (rule plain_checkI) (simp_all add: check_selector_def fresh_def is_dup_def quoted_def)

lemma plain_min: "plain_check (check_min E base v)"
  by (rule plain_checkI) (simp_all add: check_min_def fresh_def is_dup_def)

lemma plain_max: "plain_check (check_max E base v)"
  by (rule plain_checkI) (simp_all add: check_max_def fresh_def is_dup_def)

lemma plain_range: "plain_check (check_range E base v w)"
  by (rule plain_checkI) (simp_all add: check_range_def fresh_def is_dup_def)

lemma plain_terms: "plain_check (check_terms E base v)"
  by (rule plain_checkI) (simp_all add: check_terms_def fresh_def is_dup_def)

lemma plain_maxDensity: "plain_check (check_maxDensity E base v)"
  by (rule plain_checkI) (simp_all add: check_maxDensity_def fresh_def is_dup_def)

lemma plain_promptRef: "plain_check (check_promptRef E base v)"
  by (rule plain_checkI) (simp_all add: check_promptRef_def fresh_def is_dup_def Let_def)

lemma plain_introBlocks: "plain_check (check_introBlocks E base v)"
  by (rule plain_checkI) (simp_all add: check_introBlocks_def fresh_def is_dup_def)

lemma plain_count: "plain_check (check_count E base r)"
  by (rule plain_checkI)
     (simp_all add: check_count_def check_selector_def check_min_def check_max_def
        check_range_def fresh_def is_dup_def quoted_def)

lemma plain_term_density: "plain_check (check_term_density E base r)"
  by (rule plain_checkI)
     (simp_all add: check_term_density_def check_terms_def check_maxDensity_def
        fresh_def is_dup_def)

lemma plain_llm: "plain_check (check_llm E base r)"
  by (rule plain_checkI)
     (simp_all add: check_llm_def check_promptRef_def check_introBlocks_def
        fresh_def is_dup_def Let_def)


lemma plain_err: "\<not> prefix (lit ''duplicate id '') m \<Longrightarrow> plain_check (err E p m)"
  by (rule plain_checkI) (simp_all add: fresh_def is_dup_def)

lemma plain_rule: "plain_check (check_rule E base c)"
proof -
  let ?r = "get c (lit ''rule'')"
  have 1: "plain_check (\<lambda>s. check_term_density E base ?r (check_count E base ?r s))"
    by (rule plain_comp [OF plain_count plain_term_density])
  have 2: "plain_check (\<lambda>s. check_llm E base ?r
             (check_term_density E base ?r (check_count E base ?r s)))"
    by (rule plain_comp [OF 1 plain_llm])
  have e1: "plain_check (err E (base @ lit ''.rule'') (lit ''rule is required and must be an object.''))"
    by (rule plain_err) simp
  have e2: "plain_check (err E (base @ lit ''.rule.op'')
              (lit ''op must be one of: '' @ join (lit '', '') ALLOWED_OPS))"
    by (rule plain_err) simp
  have "plain_check (\<lambda>s. if \<not> isObject ?r
          then err E (base @ lit ''.rule'') (lit ''rule is required and must be an object.'') s
          else if typeof (get ?r (lit ''op'')) \<noteq> ''string'' \<or> the_str (get ?r (lit ''op'')) \<notin> set ALLOWED_OPS
          then err E (base @ lit ''.rule.op'') (lit ''op must be one of: '' @ join (lit '', '') ALLOWED_OPS) s
          else check_llm E base ?r (check_term_density E base ?r (check_count E base ?r s)))"
    by (rule plain_if [OF e1 plain_if [OF e2 2]])
  then show ?thesis by (simp add: check_rule_def [abs_def])
qed

lemma plain_after_id:
  "plain_check (\<lambda>s. check_rule E base c (check_message E base c (check_penalty E base c
      (check_dimension E base c (check_severity E base c s)))))"
  by (rule plain_comp [OF plain_comp [OF plain_comp [OF plain_comp
        [OF plain_severity plain_dimension] plain_penalty] plain_message] plain_rule])

lemma check_id_errors:
  "errors (check_id E (check_base i) c s) = errors s @
     (if valid_id c \<and> id_of c \<in> seenIds s then [dup_error E i (id_of c)] else []) @
     errors (check_id E (check_base i) c fresh)"
  by (simp add: check_id_def valid_id_def id_of_def dup_error_def fresh_def)

lemma check_id_seenIds:
  "seenIds (check_id E base c s) = (if valid_id c then insert (id_of c) (seenIds s) else seenIds s)"
  by (simp add: check_id_def valid_id_def id_of_def)

lemma check_id_clean: "filter is_dup (errors (check_id E base c fresh)) = []"
  by (simp add: check_id_def fresh_def is_dup_def)

lemma entry_object:
  "isObject c \<Longrightarrow> check_entry E i c s =
     check_rule E (check_base i) c (check_message E (check_base i) c
       (check_penalty E (check_base i) c (check_dimension E (check_base i) c
         (check_severity E (check_base i) c (check_id E (check_base i) c s)))))"
  by (simp add: check_entry_def check_fields_def)

lemma entry_errors:
  "errors (check_entry E i c s) = errors s @
     (if valid_id c \<and> id_of c \<in> seenIds s then [dup_error E i (id_of c)] else []) @
     errors (check_entry E i c fresh)"
proof (cases "isObject c")
  case False
  then have "\<not> valid_id c" using valid_id_isObject by blast
  then show ?thesis using False by (simp add: check_entry_def fresh_def)
next
  case True
  note p = plain_check_errors [OF plain_after_id, of E "check_base i" c]
  show ?thesis
    unfolding entry_object [OF True]
    by (subst p, subst (2) p, subst check_id_errors) simp
qed

lemma entry_seenIds:
  "seenIds (check_entry E i c s) = (if valid_id c then insert (id_of c) (seenIds s) else seenIds s)"
proof (cases "isObject c")
  case False
  then have "\<not> valid_id c" using valid_id_isObject by blast
  then show ?thesis using False by (simp add: check_entry_def)
next
  case True
  show ?thesis
    unfolding entry_object [OF True]
    by (simp add: plain_check_seenIds [OF plain_after_id] check_id_seenIds)
qed

lemma entry_clean: "filter is_dup (errors (check_entry E i c fresh)) = []"
proof (cases "isObject c")
  case False
  then show ?thesis by (simp add: check_entry_def fresh_def is_dup_def)
next
  case True
  note p = plain_check_errors [OF plain_after_id, of E "check_base i" c]
  show ?thesis
    unfolding entry_object [OF True]
    by (subst p) (simp add: check_id_clean plain_check_clean [OF plain_after_id])
qed

lemma entry_dups:
  "filter is_dup (errors (check_entry E i c s)) = filter is_dup (errors s) @
     (if valid_id c \<and> id_of c \<in> seenIds s then [dup_error E i (id_of c)] else [])"
  by (subst entry_errors) (simp add: entry_clean)

lemma ids_of_Nil [simp]: "ids_of [] = {}"
  by (simp add: ids_of_def)

lemma ids_of_Cons:
  "ids_of (c # cs) = (if valid_id c then insert (id_of c) (ids_of cs) else ids_of cs)"
  by (auto simp: ids_of_def)

lemma in_ids_of_take:
  assumes "j \<le> length cs"
  shows "x \<in> ids_of (take j cs) \<longleftrightarrow> (\<exists>i<j. valid_id (cs ! i) \<and> id_of (cs ! i) = x)"
proof
  assume "x \<in> ids_of (take j cs)"
  then obtain c where c: "c \<in> set (take j cs)" "valid_id c" "id_of c = x"
    by (auto simp: ids_of_def)
  then obtain i where "i < length (take j cs)" "take j cs ! i = c"
    by (auto simp: in_set_conv_nth)
  then have "i < j" "cs ! i = c" using assms by auto
  then show "\<exists>i<j. valid_id (cs ! i) \<and> id_of (cs ! i) = x" using c by blast
next
  assume "\<exists>i<j. valid_id (cs ! i) \<and> id_of (cs ! i) = x"
  then obtain i where i: "i < j" "valid_id (cs ! i)" "id_of (cs ! i) = x" by blast
  then have "cs ! i \<in> set (take j cs)"
    using assms by (auto simp: in_set_conv_nth intro!: exI [of _ i])
  then show "x \<in> ids_of (take j cs)" using i by (auto simp: ids_of_def)
qed

lemma filter_upt_Suc:
  "filter P [0..<Suc n] = (if P 0 then [0] else []) @ map Suc (filter (\<lambda>j. P (Suc j)) [0..<n])"
proof -
  have "[0..<Suc n] = 0 # map Suc [0..<n]"
    by (simp add: upt_conv_Cons map_Suc_upt del: upt_Suc)
  then show ?thesis by (simp add: filter_map comp_def del: upt_Suc)
qed

lemma loop_dups:
  "filter is_dup (errors (checks_loop E i cs s)) = filter is_dup (errors s) @
     map (\<lambda>j. dup_error E (i + j) (id_of (cs ! j)))
       (filter (\<lambda>j. valid_id (cs ! j) \<and> id_of (cs ! j) \<in> seenIds s \<union> ids_of (take j cs))
          [0..<length cs])"
proof (induction cs arbitrary: i s)
  case Nil
  then show ?case by simp
next
  case (Cons c cs)
  let ?s = "check_entry E i c s"
  have seen: "seenIds ?s \<union> ids_of (take j cs) = seenIds s \<union> ids_of (take (Suc j) (c # cs))" for j
    by (auto simp: entry_seenIds ids_of_Cons)
  have "filter is_dup (errors (checks_loop E i (c # cs) s)) =
      filter is_dup (errors ?s) @
      map (\<lambda>j. dup_error E (Suc i + j) (id_of (cs ! j)))
        (filter (\<lambda>j. valid_id (cs ! j) \<and> id_of (cs ! j) \<in> seenIds ?s \<union> ids_of (take j cs))
          [0..<length cs])"
    using Cons.IH [of "Suc i" ?s] by simp
  also have "\<dots> = filter is_dup (errors s) @
      (if valid_id c \<and> id_of c \<in> seenIds s then [dup_error E i (id_of c)] else []) @
      map (\<lambda>j. dup_error E (Suc i + j) (id_of (cs ! j)))
        (filter (\<lambda>j. valid_id (cs ! j) \<and>
                     id_of (cs ! j) \<in> seenIds s \<union> ids_of (take (Suc j) (c # cs)))
          [0..<length cs])"
    by (simp only: entry_dups seen append_assoc)
  also have "\<dots> = filter is_dup (errors s) @
      map (\<lambda>j. dup_error E (i + j) (id_of ((c # cs) ! j)))
        (filter (\<lambda>j. valid_id ((c # cs) ! j) \<and>
                     id_of ((c # cs) ! j) \<in> seenIds s \<union> ids_of (take j (c # cs)))
          [0..<length (c # cs)])"
    by (simp add: filter_upt_Suc comp_def del: upt_Suc take_Suc_Cons)
  finally show ?case .
qed

lemma valid_id_transfer:
  assumes "valid_id a" and "id_of a = id_of b"
  shows "valid_id b"
proof (cases "get b (lit ''id'')")
  case (JStr x)
  then show ?thesis using assms by (simp add: valid_id_def id_of_def)
qed (use assms in \<open>simp_all add: valid_id_def id_of_def trim_def\<close>)

lemma filter_upt_single:
  assumes "j < n" and "\<And>l. l < n \<Longrightarrow> P l \<longleftrightarrow> l = j"
  shows "filter P [0..<n] = [j]"
proof -
  have "filter P [0..<n] = filter (\<lambda>l. l = j) [0..<n]"
    using assms(2) by (intro filter_cong) auto
  also have "\<dots> = [j]"
    using assms(1) by (induction n) auto
  finally show ?thesis .
qed

lemma top_level_clean:
  "filter is_dup (errors (check_weights E ruleset (check_language E ruleset fresh))) = []"
  by (simp add: check_weights_def check_language_def Let_def fresh_def is_dup_def)

lemma top_level_seen_irrelevant:
  assumes "get ruleset (lit ''checks'') = JArr cs"
  shows "filter is_dup (errors (validate E ruleset fresh)) =
     map (\<lambda>j. dup_error E j (id_of (cs ! j)))
       (filter (\<lambda>j. valid_id (cs ! j) \<and> id_of (cs ! j) \<in> ids_of (take j cs)) [0..<length cs])"
  using assms loop_dups [of E 0 cs]
  by (simp add: validate_def check_checks_def Let_def top_level_clean)

text \<open>
  Claim C2, as amended. An id counts when it is a string with a character that is not
  white space. For a ruleset whose \<open>checks\<close> is a list, the duplicate errors of the file
  are, in order, one for each index whose entry has such an id that an earlier entry has
  too, by equality of the untrimmed strings, with the path \<open>checks[j].id\<close> of that
  index. So when exactly one index repeats an earlier id there is exactly one duplicate
  error, at that index. And the entry is validated all the same: its errors are the
  duplicate error followed by the errors the entry gets when no id has been seen.
\<close>

theorem duplicate_ids_reported:
  assumes "get ruleset (lit ''checks'') = JArr cs"
  shows "filter is_dup (errors (validate E ruleset fresh)) =
           map (\<lambda>j. dup_error E j (id_of (cs ! j))) (filter (repeats_id cs) [0..<length cs])
       \<and> (\<forall>i j. i < j \<and> j < length cs \<and> valid_id (cs ! i) \<and> id_of (cs ! i) = id_of (cs ! j) \<and>
              (\<forall>l<length cs. repeats_id cs l \<longrightarrow> l = j) \<longrightarrow>
            filter is_dup (errors (validate E ruleset fresh)) = [dup_error E j (id_of (cs ! j))])
       \<and> (\<forall>i c t. errors (check_entry E i c t) = errors t @
              (if valid_id c \<and> id_of c \<in> seenIds t then [dup_error E i (id_of c)] else []) @
              errors (check_entry E i c fresh))"
proof (intro conjI allI impI)
  have eq: "filter (\<lambda>j. valid_id (cs ! j) \<and> id_of (cs ! j) \<in> ids_of (take j cs)) [0..<length cs] =
      filter (repeats_id cs) [0..<length cs]"
    by (rule filter_cong) (auto simp: repeats_id_def in_ids_of_take)
  show 1: "filter is_dup (errors (validate E ruleset fresh)) =
      map (\<lambda>j. dup_error E j (id_of (cs ! j))) (filter (repeats_id cs) [0..<length cs])"
    using top_level_seen_irrelevant [OF assms] unfolding eq .
  show "filter is_dup (errors (validate E ruleset fresh)) = [dup_error E j (id_of (cs ! j))]"
    if h: "i < j \<and> j < length cs \<and> valid_id (cs ! i) \<and> id_of (cs ! i) = id_of (cs ! j) \<and>
         (\<forall>l<length cs. repeats_id cs l \<longrightarrow> l = j)" for i j
  proof -
    have v: "valid_id (cs ! j)"
      using h valid_id_transfer [of "cs ! i" "cs ! j"] by blast
    have r: "repeats_id cs j"
      unfolding repeats_id_def using h v by blast
    have "filter (repeats_id cs) [0..<length cs] = [j]"
    proof (rule filter_upt_single)
      show "j < length cs" using h by blast
      show "repeats_id cs l \<longleftrightarrow> l = j" if "l < length cs" for l
        using h r that by blast
    qed
    then show ?thesis unfolding 1 by simp
  qed
  show "errors (check_entry E i c t) = errors t @
      (if valid_id c \<and> id_of c \<in> seenIds t then [dup_error E i (id_of c)] else []) @
      errors (check_entry E i c fresh)" for i c t
    by (rule entry_errors)
qed

lemmas validator_defs = validate_def check_language_def check_weights_def check_checks_def
  check_entry_def check_fields_def check_id_def check_severity_def check_dimension_def
  check_penalty_def check_message_def check_rule_def check_base_def

text \<open>
  Claim C2 as stated fails for two entries with \<open>id: " "\<close>. The two ids are
  identical non-empty strings, so the claim asks for one duplicate error; the code finds
  both ids empty once trimmed, gives each entry the error that the id is required, does
  not record them, and gives no duplicate error.
\<close>

theorem blank_ids_counterexample:
  "lit '' '' \<noteq> []
   \<and> get (id_entry (lit '' '')) (lit ''id'') = JStr (lit '' '')
   \<and> filter is_dup (errors (validate demo_env (checks_doc [id_entry (lit '' ''), id_entry (lit '' '')]) fresh)) = []"
  by (simp add: validator_defs id_entry_def checks_doc_def is_dup_def isObject_def fresh_def
        demo_env_def str_eval Let_def)

text \<open>
  The ids \<open>a, b, a\<close>: one duplicate error, at index \<open>2\<close>. Two ids that are a
  no-break space \<open>U+00A0\<close>: no duplicate error, as neither id counts.
\<close>

theorem duplicate_ids_reported_witness:
  "filter is_dup (errors (validate demo_env
      (checks_doc [id_entry (lit ''a''), id_entry (lit ''b''), id_entry (lit ''a'')]) fresh)) =
     [\<lparr>file = lit ''rules/a/ruleset.yml'', path = lit ''checks[2].id'',
       message = lit ''duplicate id '' @ quoted (lit ''a'')\<rparr>]
   \<and> filter is_dup (errors (validate demo_env
      (checks_doc [id_entry [0xA0], id_entry [0xA0]]) fresh)) = []"
proof -
  let ?cs = "[id_entry (lit ''a''), id_entry (lit ''b''), id_entry (lit ''a'')]"
  let ?bs = "[id_entry [0xA0], id_entry [0xA0]]"
  have c: "get (checks_doc cs) (lit ''checks'') = JArr cs" for cs
    by (simp add: checks_doc_def)
  have r: "\<not> repeats_id ?cs 0" "\<not> repeats_id ?cs 1"
    by (simp_all add: repeats_id_def valid_id_def id_of_def id_entry_def)
  have "valid_id (?cs ! 2) \<and> (0::nat) < 2 \<and> valid_id (?cs ! 0) \<and> id_of (?cs ! 0) = id_of (?cs ! 2)"
    by (simp add: valid_id_def id_of_def id_entry_def str_eval)
  then have r2: "repeats_id ?cs 2"
    unfolding repeats_id_def by blast
  have only: "\<forall>l<length ?cs. repeats_id ?cs l \<longrightarrow> l = 2"
    using r by (auto simp: less_Suc_eq)
  have h: "(0::nat) < 2 \<and> 2 < length ?cs \<and> valid_id (?cs ! 0) \<and>
      id_of (?cs ! 0) = id_of (?cs ! 2) \<and> (\<forall>l<length ?cs. repeats_id ?cs l \<longrightarrow> l = 2)"
    using only by (simp add: valid_id_def id_of_def id_entry_def str_eval)
  have b: "\<not> repeats_id ?bs 0" "\<not> repeats_id ?bs 1"
    by (simp_all add: repeats_id_def valid_id_def id_of_def id_entry_def str_eval)
  have u: "[0..<length ?bs] = [0, 1]"
    by (simp add: upt_rec)
  have 1: "filter is_dup (errors (validate demo_env (checks_doc ?cs) fresh)) =
      [dup_error demo_env 2 (id_of (?cs ! 2))]"
    by (rule duplicate_ids_reported [OF c, THEN conjunct2, THEN conjunct1, rule_format, OF h])
  have 2: "filter is_dup (errors (validate demo_env (checks_doc ?bs) fresh)) =
      map (\<lambda>j. dup_error demo_env j (id_of (?bs ! j))) (filter (repeats_id ?bs) [0..<length ?bs])"
    by (rule duplicate_ids_reported [OF c, THEN conjunct1])
  show ?thesis
    unfolding 1 2 u using b
    by (simp add: dup_error_def check_base_def id_of_def id_entry_def demo_env_def str_eval)
qed

subsection \<open>A run of the validator does not depend on the state it starts in\<close>

lemma check_id_warnings: "warnings (check_id E base c s) = warnings s"
  by (simp add: check_id_def)

lemma entry_warnings: "warnings (check_entry E i c s) = warnings s"
proof (cases "isObject c")
  case False
  then show ?thesis by (simp add: check_entry_def)
next
  case True
  show ?thesis
    unfolding entry_object [OF True]
    by (simp add: plain_check_warnings [OF plain_after_id] check_id_warnings)
qed

lemma loop_warnings: "warnings (checks_loop E i cs s) = warnings s"
  by (induction cs arbitrary: i s) (simp_all add: entry_warnings)

lemma loop_errors_same_seen:
  assumes "seenIds s = seenIds t"
  shows "\<exists>D. errors (checks_loop E i cs s) = errors s @ D \<and>
             errors (checks_loop E i cs t) = errors t @ D"
  using assms
proof (induction cs arbitrary: i s t)
  case Nil
  then show ?case by simp
next
  case (Cons c cs)
  let ?s = "check_entry E i c s" and ?t = "check_entry E i c t"
  let ?X = "(if valid_id c \<and> id_of c \<in> seenIds s then [dup_error E i (id_of c)] else []) @
            errors (check_entry E i c fresh)"
  have "seenIds ?s = seenIds ?t"
    using Cons.prems by (simp add: entry_seenIds)
  from Cons.IH [OF this, of "Suc i"] obtain D where
    D: "errors (checks_loop E (Suc i) cs ?s) = errors ?s @ D"
       "errors (checks_loop E (Suc i) cs ?t) = errors ?t @ D"
    by blast
  have s: "errors ?s = errors s @ ?X"
    by (rule entry_errors)
  have t: "errors ?t = errors t @ ?X"
    using entry_errors [of E i c t] Cons.prems by simp
  show ?case
    by (rule exI [of _ "?X @ D"]) (simp only: checks_loop.simps D s t append_assoc simp_thms)
qed

lemma check_checks_errors:
  "errors (check_checks E ruleset s) = errors s @ errors (check_checks E ruleset fresh)"
proof -
  let ?cs = "if Array_isArray (get ruleset (lit ''checks''))
             then the_arr (get ruleset (lit ''checks'')) else []"
  let ?f = "\<lambda>u. (if \<not> Array_isArray (get ruleset (lit ''checks''))
                 then err E (lit ''checks'') (lit ''checks must be an array.'') u
                 else u)\<lparr>seenIds := {}\<rparr>"
  have cc: "check_checks E ruleset u = checks_loop E 0 ?cs (?f u)" for u
    by (simp add: check_checks_def Let_def)
  have "seenIds (?f s) = seenIds (?f fresh)"
    by simp
  from loop_errors_same_seen [OF this, of E 0 ?cs] obtain D where
    D: "errors (checks_loop E 0 ?cs (?f s)) = errors (?f s) @ D"
       "errors (checks_loop E 0 ?cs (?f fresh)) = errors (?f fresh) @ D"
    by blast
  have "errors (?f s) = errors s @ errors (?f fresh)"
    by (simp add: fresh_def)
  then show ?thesis
    unfolding cc D by simp
qed

lemma check_checks_warnings: "warnings (check_checks E ruleset s) = warnings s"
  by (simp add: check_checks_def Let_def loop_warnings)

lemma top_level_errors:
  "errors (check_weights E ruleset (check_language E ruleset s)) =
     errors s @ errors (check_weights E ruleset fresh)"
  by (simp add: check_weights_def check_language_def Let_def fresh_def)

lemma top_level_warnings:
  "warnings (check_weights E ruleset (check_language E ruleset s)) =
     warnings s @ warnings (check_language E ruleset fresh) @ warnings (check_weights E ruleset fresh)"
  by (simp add: check_weights_def check_language_def Let_def fresh_def)

lemma validate_errors:
  "errors (validate E ruleset s) = errors s @ errors (validate E ruleset fresh)"
proof -
  have "errors (validate E ruleset u) =
      errors u @ errors (check_weights E ruleset fresh) @ errors (check_checks E ruleset fresh)" for u
    unfolding validate_def by (subst check_checks_errors) (simp add: top_level_errors)
  from this [of s] this [of fresh] show ?thesis
    by (simp add: fresh_def)
qed

lemma validate_warnings:
  "warnings (validate E ruleset s) =
     warnings s @ warnings (check_language E ruleset fresh) @ warnings (check_weights E ruleset fresh)"
  by (simp add: validate_def check_checks_warnings top_level_warnings)

subsection \<open>The language tag\<close>

lemma lit_Cons_eq_iff [simp]:
  "lit (a # as) = lit (b # bs) @ ys \<longleftrightarrow> a = b \<and> lit as = lit bs @ ys"
  "lit (a # as) @ xs = lit (b # bs) @ ys \<longleftrightarrow> a = b \<and> lit as @ xs = lit bs @ ys"
  "lit (a # as) @ xs = c # zs \<longleftrightarrow> of_char a = c \<and> lit as @ xs = zs"
  "c # zs = lit (a # as) @ xs \<longleftrightarrow> of_char a = c \<and> lit as @ xs = zs"
  by (auto simp: lit_def)

lemma bcp47_test_iff:
  "bcp47_test t \<longleftrightarrow>
     (\<exists>a b. t = [a, b] \<and> isAlpha a \<and> isAlpha b) \<or>
     (\<exists>a b sub. t = a # b # 0x2D # sub \<and> isAlpha a \<and> isAlpha b \<and> sub \<noteq> [] \<and>
        (\<forall>c\<in>set sub. isAlnum c))"
  by (cases t rule: bcp47_test.cases) (auto simp: list_all_iff split: list.splits)

lemma weights_warning_form:
  assumes "x \<in> set (warnings (check_weights E ruleset fresh))"
  shows "\<exists>m. x = lit ''WARN '' @ cur_file E @ lit '' weights: '' @ m"
proof -
  have "sum_warning f v = lit ''WARN '' @ f @ lit '' weights: '' @
      (lit ''sum is '' @ toFixed 6 v @ lit '', expected ~1.0 ('' @ [0xC2, 0xB1] @ lit ''1e-4).'')"
    for f v
    by (simp add: sum_warning_def)
  moreover have "missing_warning f ks = lit ''WARN '' @ f @ lit '' weights: '' @
      (lit ''missing or non-numeric keys: '' @ join (lit '', '') ks)" for f ks
    by (simp add: missing_warning_def)
  ultimately show ?thesis
    using assms by (auto simp: check_weights_def Let_def fresh_def split: if_splits)
qed

lemma language_texts_differ:
  "unusual_warning f l \<noteq> bcp47_warning f l"
  "unusual_warning f l \<noteq> not_string_warning f"
  "bcp47_warning f l \<noteq> not_string_warning f"
  "unusual_warning f l \<noteq> lit ''WARN '' @ f @ lit '' weights: '' @ m"
  "bcp47_warning f l \<noteq> lit ''WARN '' @ f @ lit '' weights: '' @ m"
  "not_string_warning f \<noteq> lit ''WARN '' @ f @ lit '' weights: '' @ m"
  by (simp_all add: unusual_warning_def bcp47_warning_def not_string_warning_def quoted_def)

lemma language_not_in_weights:
  "unusual_warning (cur_file E) l \<notin> set (warnings (check_weights E ruleset fresh))"
  "bcp47_warning (cur_file E) l \<notin> set (warnings (check_weights E ruleset fresh))"
  "not_string_warning (cur_file E) \<notin> set (warnings (check_weights E ruleset fresh))"
  using weights_warning_form [of _ E ruleset] language_texts_differ(4-6) by blast+

lemma check_language_string:
  assumes "get ruleset (lit ''language'') = JStr lang"
  shows "warnings (check_language E ruleset s) = warnings s @
      (if lang \<noteq> toLowerCase E (trim lang) \<and> lang \<noteq> toUpperCase E (toLowerCase E (trim lang))
       then [unusual_warning (cur_file E) lang] else []) @
      (if \<not> bcp47_test (trim lang) then [bcp47_warning (cur_file E) lang] else [])"
  using assms by (simp add: check_language_def Let_def)

lemma check_language_other:
  assumes "typeof (get ruleset (lit ''language'')) \<noteq> ''string''"
  shows "warnings (check_language E ruleset s) = warnings s @
      (if get ruleset (lit ''language'') \<noteq> JUndefined then [not_string_warning (cur_file E)] else [])"
  using assms by (simp add: check_language_def)

text \<open>
  Claim C5, as amended. Among the warnings of a ruleset whose \<open>language\<close> is the string
  \<open>lang\<close>: the formatting warning is present exactly when \<open>lang\<close> differs both from its
  trimmed and lower-cased form and from the upper-cased form of that form; the
  pattern warning is present exactly when the trimmed \<open>lang\<close> is neither two letters
  \<open>A\<close>--\<open>Z\<close>, \<open>a\<close>--\<open>z\<close> nor two such letters, a hyphen and one or more such
  letters or digits; the not-a-string warning is absent; and the language check appends
  these warnings in this order, each at most once. When \<open>language\<close> is present and not
  a string, the check appends the not-a-string warning alone, and no formatting or
  pattern warning is among the warnings of the ruleset. When \<open>language\<close> is absent
  the check appends nothing. It never gives an error.
\<close>

theorem language_warnings:
  "(get ruleset (lit ''language'') = JStr lang \<longrightarrow>
      (unusual_warning (cur_file E) lang \<in> set (warnings (validate E ruleset fresh)) \<longleftrightarrow>
         lang \<noteq> toLowerCase E (trim lang) \<and> lang \<noteq> toUpperCase E (toLowerCase E (trim lang)))
    \<and> (bcp47_warning (cur_file E) lang \<in> set (warnings (validate E ruleset fresh)) \<longleftrightarrow>
         \<not> ((\<exists>a b. trim lang = [a, b] \<and> isAlpha a \<and> isAlpha b) \<or>
            (\<exists>a b sub. trim lang = a # b # 0x2D # sub \<and> isAlpha a \<and> isAlpha b \<and> sub \<noteq> [] \<and>
               (\<forall>c\<in>set sub. isAlnum c))))
    \<and> not_string_warning (cur_file E) \<notin> set (warnings (validate E ruleset fresh))
    \<and> warnings (check_language E ruleset s) = warnings s @
        (if lang \<noteq> toLowerCase E (trim lang) \<and> lang \<noteq> toUpperCase E (toLowerCase E (trim lang))
         then [unusual_warning (cur_file E) lang] else []) @
        (if \<not> bcp47_test (trim lang) then [bcp47_warning (cur_file E) lang] else []))
   \<and> (typeof (get ruleset (lit ''language'')) \<noteq> ''string'' \<and>
        get ruleset (lit ''language'') \<noteq> JUndefined \<longrightarrow>
      warnings (check_language E ruleset s) = warnings s @ [not_string_warning (cur_file E)]
    \<and> (\<forall>l. unusual_warning (cur_file E) l \<notin> set (warnings (validate E ruleset fresh)) \<and>
            bcp47_warning (cur_file E) l \<notin> set (warnings (validate E ruleset fresh))))
   \<and> (get ruleset (lit ''language'') = JUndefined \<longrightarrow>
      warnings (check_language E ruleset s) = warnings s)
   \<and> errors (check_language E ruleset s) = errors s"
proof (intro conjI impI allI)
  assume l: "get ruleset (lit ''language'') = JStr lang"
  have w: "set (warnings (validate E ruleset fresh)) =
      (if lang \<noteq> toLowerCase E (trim lang) \<and> lang \<noteq> toUpperCase E (toLowerCase E (trim lang))
       then {unusual_warning (cur_file E) lang} else {}) \<union>
      (if \<not> bcp47_test (trim lang) then {bcp47_warning (cur_file E) lang} else {}) \<union>
      set (warnings (check_weights E ruleset fresh))"
    by (simp add: validate_warnings check_language_string [OF l] fresh_def)
  show "unusual_warning (cur_file E) lang \<in> set (warnings (validate E ruleset fresh)) \<longleftrightarrow>
      lang \<noteq> toLowerCase E (trim lang) \<and> lang \<noteq> toUpperCase E (toLowerCase E (trim lang))"
    unfolding w using language_not_in_weights(1) [of E lang ruleset]
      language_texts_differ(1) [of "cur_file E" lang]
    by auto
  show "bcp47_warning (cur_file E) lang \<in> set (warnings (validate E ruleset fresh)) \<longleftrightarrow>
      \<not> ((\<exists>a b. trim lang = [a, b] \<and> isAlpha a \<and> isAlpha b) \<or>
         (\<exists>a b sub. trim lang = a # b # 0x2D # sub \<and> isAlpha a \<and> isAlpha b \<and> sub \<noteq> [] \<and>
            (\<forall>c\<in>set sub. isAlnum c)))"
    unfolding w bcp47_test_iff [symmetric]
    using language_not_in_weights(2) [of E lang ruleset]
      language_texts_differ(1) [of "cur_file E" lang]
    by auto
  show "not_string_warning (cur_file E) \<notin> set (warnings (validate E ruleset fresh))"
    unfolding w using language_not_in_weights(3) [of E ruleset]
      language_texts_differ(2,3) [of "cur_file E" lang]
    by auto
  show "warnings (check_language E ruleset s) = warnings s @
      (if lang \<noteq> toLowerCase E (trim lang) \<and> lang \<noteq> toUpperCase E (toLowerCase E (trim lang))
       then [unusual_warning (cur_file E) lang] else []) @
      (if \<not> bcp47_test (trim lang) then [bcp47_warning (cur_file E) lang] else [])"
    by (rule check_language_string [OF l])
next
  assume n: "typeof (get ruleset (lit ''language'')) \<noteq> ''string'' \<and>
    get ruleset (lit ''language'') \<noteq> JUndefined"
  then show "warnings (check_language E ruleset s) = warnings s @ [not_string_warning (cur_file E)]"
    by (simp add: check_language_other)
  have w: "set (warnings (validate E ruleset fresh)) =
      {not_string_warning (cur_file E)} \<union> set (warnings (check_weights E ruleset fresh))"
    using n by (simp add: validate_warnings check_language_other fresh_def)
  fix l
  show "unusual_warning (cur_file E) l \<notin> set (warnings (validate E ruleset fresh))"
    unfolding w using language_not_in_weights(1) [of E l ruleset]
      language_texts_differ(2) [of "cur_file E" l]
    by auto
  show "bcp47_warning (cur_file E) l \<notin> set (warnings (validate E ruleset fresh))"
    unfolding w using language_not_in_weights(2) [of E l ruleset]
      language_texts_differ(3) [of "cur_file E" l]
    by auto
next
  assume "get ruleset (lit ''language'') = JUndefined"
  then show "warnings (check_language E ruleset s) = warnings s"
    by (simp add: check_language_def)
next
  show "errors (check_language E ruleset s) = errors s"
    by (simp add: check_language_def Let_def)
qed

text \<open>
  The value \<open>De\<close> followed by a space gets the formatting warning alone, \<open>deu\<close> the
  pattern warning alone, \<open>de\<close> after a no-break space the formatting warning alone,
  \<open>d\<close> followed by \<open>U+00C9\<close> both warnings, and the number \<open>7\<close> the not-a-string
  warning.
\<close>

theorem language_warnings_witness:
  "warnings (check_language demo_env (JObj [(lit ''language'', JStr (lit ''De ''))]) fresh) =
     [unusual_warning (lit ''rules/a/ruleset.yml'') (lit ''De '')]
   \<and> warnings (check_language demo_env (JObj [(lit ''language'', JStr (lit ''deu''))]) fresh) =
     [bcp47_warning (lit ''rules/a/ruleset.yml'') (lit ''deu'')]
   \<and> warnings (check_language demo_env
        (JObj [(lit ''language'', JStr ([0xA0] @ lit ''de''))]) fresh) =
     [unusual_warning (lit ''rules/a/ruleset.yml'') ([0xA0] @ lit ''de'')]
   \<and> warnings (check_language demo_env (JObj [(lit ''language'', JStr [0x64, 0xC9])]) fresh) =
     [unusual_warning (lit ''rules/a/ruleset.yml'') [0x64, 0xC9],
      bcp47_warning (lit ''rules/a/ruleset.yml'') [0x64, 0xC9]]
   \<and> unusual_warning (lit ''rules/a/ruleset.yml'') [0x64, 0xC9] \<in>
       set (warnings (validate demo_env (JObj [(lit ''language'', JStr [0x64, 0xC9])]) fresh))
   \<and> bcp47_warning (lit ''rules/a/ruleset.yml'') [0x64, 0xC9] \<in>
       set (warnings (validate demo_env (JObj [(lit ''language'', JStr [0x64, 0xC9])]) fresh))
   \<and> bcp47_warning (lit ''rules/a/ruleset.yml'') ([0xA0] @ lit ''de'') \<notin>
       set (warnings (validate demo_env
         (JObj [(lit ''language'', JStr ([0xA0] @ lit ''de''))]) fresh))
   \<and> warnings (check_language demo_env (JObj [(lit ''language'', JNum (Fin 7))]) fresh) =
     [not_string_warning (lit ''rules/a/ruleset.yml'')]"
  using language_warnings [of "JObj [(lit ''language'', JStr (lit ''De ''))]" "lit ''De ''"
      demo_env fresh]
    language_warnings [of "JObj [(lit ''language'', JStr (lit ''deu''))]" "lit ''deu''"
      demo_env fresh]
    language_warnings [of "JObj [(lit ''language'', JStr ([0xA0] @ lit ''de''))]"
      "[0xA0] @ lit ''de''" demo_env fresh]
    language_warnings [of "JObj [(lit ''language'', JStr [0x64, 0xC9])]" "[0x64, 0xC9]"
      demo_env fresh]
    language_warnings [of "JObj [(lit ''language'', JNum (Fin 7))]" "[]" demo_env fresh]
  by (simp add: demo_env_def fresh_def str_eval)

text \<open>
  Claim C5 as stated fails twice. For \<open>language: DE\<close> the trimmed and lower-cased form
  \<open>de\<close> differs from the value and from the value in upper case, so the claim asks
  for the formatting warning; the code compares the value with the upper-cased form of
  \<open>de\<close>, finds them equal and gives no warning. For \<open>language: de\<close> after a space
  the value fails the pattern, so the claim asks for the pattern warning; the code
  tests the trimmed value, which matches, and gives the formatting warning alone.
\<close>

theorem language_claim_counterexample:
  "toLowerCase demo_env (trim (lit ''DE'')) \<noteq> lit ''DE''
   \<and> toLowerCase demo_env (trim (lit ''DE'')) \<noteq> toUpperCase demo_env (lit ''DE'')
   \<and> warnings (check_language demo_env (JObj [(lit ''language'', JStr (lit ''DE''))]) fresh) = []
   \<and> \<not> bcp47_test (lit '' de'')
   \<and> warnings (check_language demo_env (JObj [(lit ''language'', JStr (lit '' de''))]) fresh) =
       [unusual_warning (lit ''rules/a/ruleset.yml'') (lit '' de'')]"
  by (simp add: check_language_def Let_def demo_env_def fresh_def str_eval)

subsection \<open>The loop over the files\<close>

lemma process_file_console:
  "console (process_file W allowed f r) = console r @ file_report W allowed f"
  by (simp add: process_file_def file_report_def Let_def)

lemma process_file_failedAny:
  "failedAny (process_file W allowed f r) \<longleftrightarrow> failedAny r \<or> file_errors W allowed f \<noteq> []"
  by (simp add: process_file_def file_errors_def Let_def)

lemma files_loop_console:
  "console (files_loop W allowed fs r) = console r @ concat (map (file_report W allowed) fs)"
  by (induction fs arbitrary: r) (simp_all add: process_file_console)

lemma files_loop_failedAny:
  "failedAny (files_loop W allowed fs r) \<longleftrightarrow>
     failedAny r \<or> (\<exists>f\<in>set fs. file_errors W allowed f \<noteq> [])"
  by (induction fs arbitrary: r) (auto simp: process_file_failedAny)

lemma file_report_cases:
  "file_report W allowed f =
     (if root_errors f (read_yaml W f) \<noteq> [] then map fail_line (root_errors f (read_yaml W f))
      else map Warn (warnings (validate_file W allowed f)) @
           (if errors (validate_file W allowed f) \<noteq> []
            then map fail_line (errors (validate_file W allowed f))
            else [Log (lit ''OK   semantic '' @ f)]))"
  by (simp add: file_report_def process_file_def Let_def)

lemma error_line_in_fail_lines: "(\<exists>l. Error l \<in> set (map fail_line es)) \<longleftrightarrow> es \<noteq> []"
  by (cases es) (auto simp: fail_line_def)

lemma error_line_in_report:
  "(\<exists>l. Error l \<in> set (file_report W allowed f)) \<longleftrightarrow> file_errors W allowed f \<noteq> []"
proof (cases "root_errors f (read_yaml W f) \<noteq> []")
  case True
  then show ?thesis
    using error_line_in_fail_lines [of "root_errors f (read_yaml W f)"]
    by (simp add: file_report_cases file_errors_def)
next
  case False
  have w: "Error l \<notin> set (map Warn ws)" for l ws by auto
  show ?thesis
  proof (cases "errors (validate_file W allowed f) \<noteq> []")
    case True
    then show ?thesis
      using False error_line_in_fail_lines [of "errors (validate_file W allowed f)"] w
      by (simp add: file_report_cases file_errors_def del: set_map)
  next
    case e: False
    then show ?thesis
      using False w by (simp add: file_report_cases file_errors_def del: set_map)
  qed
qed

lemma ok_line_in_report:
  "Log (lit ''OK   semantic '' @ f) \<in> set (file_report W allowed f) \<longleftrightarrow> file_errors W allowed f = []"
  by (auto simp: file_report_cases file_errors_def fail_line_def image_iff)

lemma selectors_loaded_main:
  assumes "isObject (parsed_value (read_yaml W SELECTORS_PATH))"
    and "isObject (get (parsed_value (read_yaml W SELECTORS_PATH)) (lit ''selectors''))"
  shows "exit_code (semantic_main W) =
           (if failedAny (files_loop W
                 (set (Object_keys (get (parsed_value (read_yaml W SELECTORS_PATH)) (lit ''selectors''))))
                 (glob W RULESET_GLOB)
                 \<lparr>console = [], failedAny = False, fs_calls = [ReadFile SELECTORS_PATH]\<rparr>)
            then 1 else 0)"
    and "printed (semantic_main W) =
           (if glob W RULESET_GLOB = [] then [Log (lit ''OK semantic: no files matched '' @ RULESET_GLOB)]
            else console (files_loop W
                 (set (Object_keys (get (parsed_value (read_yaml W SELECTORS_PATH)) (lit ''selectors''))))
                 (glob W RULESET_GLOB)
                 \<lparr>console = [], failedAny = False, fs_calls = [ReadFile SELECTORS_PATH]\<rparr>))"
  using assms by (auto simp: semantic_main_def Let_def)

text \<open>
  Claim C1. In a run whose selector table loads (otherwise the script exits with code
  \<open>1\<close> before it looks for ruleset files): a file gets a \<open>FAIL\<close> line exactly when
  its array of errors is not empty and the \<open>OK\<close> line exactly when it is empty, whatever
  its warnings; the exit code is \<open>1\<close> when a file that \<open>glob\<close> found has an error
  and \<open>0\<close> otherwise, in particular when no file was found.
\<close>

theorem verdict_and_exit_code:
  assumes "isObject (parsed_value (read_yaml W SELECTORS_PATH))"
    and "isObject (get (parsed_value (read_yaml W SELECTORS_PATH)) (lit ''selectors''))"
  shows "((\<exists>l. Error l \<in> set (file_report W (loaded_selectors W) f)) \<longleftrightarrow>
            file_errors W (loaded_selectors W) f \<noteq> [])
       \<and> (Log (lit ''OK   semantic '' @ f) \<in> set (file_report W (loaded_selectors W) f) \<longleftrightarrow>
            file_errors W (loaded_selectors W) f = [])
       \<and> exit_code (semantic_main W) =
           (if \<exists>g\<in>set (glob W RULESET_GLOB). file_errors W (loaded_selectors W) g \<noteq> [] then 1
            else 0)
       \<and> printed (semantic_main W) =
           (if glob W RULESET_GLOB = [] then [Log (lit ''OK semantic: no files matched '' @ RULESET_GLOB)]
            else concat (map (file_report W (loaded_selectors W)) (glob W RULESET_GLOB)))"
  using selectors_loaded_main [OF assms] error_line_in_report ok_line_in_report
  by (simp add: loaded_selectors_def files_loop_failedAny files_loop_console)

lemma demo_world_simps:
  "read_yaml (demo_world fs) SELECTORS_PATH = Parsed demo_selectors"
  "read_yaml (demo_world fs) (lit ''rules/a/ruleset.yml'') = Parsed (JObj [(lit ''checks'', JArr [])])"
  "read_yaml (demo_world fs) (lit ''rules/b/ruleset.yml'') = Parsed JNull"
  "glob (demo_world fs) p = fs"
  "access (demo_world fs) = (\<lambda>p. False)"
  by (simp_all add: demo_world_def SELECTORS_PATH_def)

lemma demo_selectors_ok:
  "isObject (parsed_value (read_yaml (demo_world fs) SELECTORS_PATH))"
  "isObject (get (parsed_value (read_yaml (demo_world fs) SELECTORS_PATH)) (lit ''selectors''))"
  by (simp_all add: demo_world_simps parsed_value_def demo_selectors_def isObject_def)

lemma demo_file_a:
  "root_errors (lit ''rules/a/ruleset.yml'') (Parsed (JObj [(lit ''checks'', JArr [])])) = []"
  "errors (validate_file (demo_world fs) A (lit ''rules/a/ruleset.yml'')) = []"
  "warnings (validate_file (demo_world fs) A (lit ''rules/a/ruleset.yml'')) = []"
  by (simp_all add: demo_world_simps root_errors_def parse_errors_def parsed_value_def isObject_def
        validate_file_def validate_def check_language_def check_weights_def check_checks_def Let_def)

lemma demo_file_b:
  "root_errors (lit ''rules/b/ruleset.yml'') (Parsed JNull) =
     [\<lparr>file = lit ''rules/b/ruleset.yml'', path = lit ''(root)'',
       message = lit ''Ruleset is empty (YAML parsed to null).''\<rparr>]"
  by (simp add: demo_world_simps root_errors_def parse_errors_def parsed_value_def fail_def)

text \<open>
  One file with an empty list of checks: exit code \<open>0\<close>. That file and an empty one:
  exit code \<open>1\<close>. No file: exit code \<open>0\<close>.
\<close>

theorem verdict_and_exit_code_witness:
  "exit_code (semantic_main (demo_world [lit ''rules/a/ruleset.yml''])) = 0
   \<and> printed (semantic_main (demo_world [lit ''rules/a/ruleset.yml''])) =
       [Log (lit ''OK   semantic rules/a/ruleset.yml'')]
   \<and> exit_code (semantic_main (demo_world [lit ''rules/a/ruleset.yml'', lit ''rules/b/ruleset.yml''])) = 1
   \<and> printed (semantic_main (demo_world [lit ''rules/a/ruleset.yml'', lit ''rules/b/ruleset.yml''])) =
       [Log (lit ''OK   semantic rules/a/ruleset.yml''),
        Error (lit ''FAIL rules/b/ruleset.yml (root): Ruleset is empty (YAML parsed to null).'')]
   \<and> exit_code (semantic_main (demo_world [])) = 0"
  using verdict_and_exit_code [OF demo_selectors_ok, of "[lit ''rules/a/ruleset.yml'']" "[]"]
    verdict_and_exit_code [OF demo_selectors_ok,
      of "[lit ''rules/a/ruleset.yml'', lit ''rules/b/ruleset.yml'']" "[]"]
    verdict_and_exit_code [OF demo_selectors_ok, of "[]" "[]"]
  by (simp add: demo_world_simps file_errors_def file_report_cases demo_file_a demo_file_b
        fail_line_def)

lemma root_errors_not_object:
  assumes "v = JNull \<or> \<not> isObject v"
  shows "root_errors f (Parsed v) =
     [\<lparr>file = f, path = lit ''(root)'',
       message = (if v = JNull then lit ''Ruleset is empty (YAML parsed to null).''
                  else lit ''Ruleset must be an object.'')\<rparr>]"
  using assms by (auto simp: root_errors_def parse_errors_def parsed_value_def fail_def)

lemma validate_file_cong:
  assumes "read_yaml W f = read_yaml W' f" and "access W = access W'"
    and "lower_case W = lower_case W'" and "upper_case W = upper_case W'"
  shows "validate_file W allowed f = validate_file W' allowed f"
  using assms by (simp add: validate_file_def file_env_def)

lemma file_report_cong:
  assumes "read_yaml W f = read_yaml W' f" and "access W = access W'"
    and "lower_case W = lower_case W'" and "upper_case W = upper_case W'"
  shows "file_report W allowed f = file_report W' allowed f"
  using assms validate_file_cong [OF assms] by (simp add: file_report_cases)

text \<open>
  Claim C8. A file that parses to \<open>null\<close>, or to a value that is no object, gets
  exactly one error, at the root; its iteration prints that one \<open>FAIL\<close> line, sets the
  failure flag and does nothing else: no warning, no \<open>OK\<close> line, no call to the file
  system beyond reading the file. The files before and after it print what they print
  on their own, and what they print does not depend on the content of this file.
\<close>

theorem root_shape_guard:
  assumes "read_yaml W f = Parsed v" and "v = JNull \<or> \<not> isObject v"
  shows "file_errors W allowed f =
           [\<lparr>file = f, path = lit ''(root)'',
             message = (if v = JNull then lit ''Ruleset is empty (YAML parsed to null).''
                        else lit ''Ruleset must be an object.'')\<rparr>]
       \<and> process_file W allowed f r =
           r\<lparr>console := console r @
                [Error (lit ''FAIL '' @ f @ lit '' (root): '' @
                   (if v = JNull then lit ''Ruleset is empty (YAML parsed to null).''
                    else lit ''Ruleset must be an object.''))],
             failedAny := True,
             fs_calls := fs_calls r @ [ReadFile f]\<rparr>
       \<and> console (files_loop W allowed (before @ f # after) r) =
           console r @ concat (map (file_report W allowed) before) @
             [Error (lit ''FAIL '' @ f @ lit '' (root): '' @
                (if v = JNull then lit ''Ruleset is empty (YAML parsed to null).''
                 else lit ''Ruleset must be an object.''))] @
             concat (map (file_report W allowed) after)
       \<and> (\<forall>g x. g \<noteq> f \<longrightarrow>
             file_report (W\<lparr>read_yaml := (read_yaml W)(f := x)\<rparr>) allowed g =
             file_report W allowed g)"
proof -
  note re = root_errors_not_object [OF assms(2), of f]
  have 1: "file_errors W allowed f = root_errors f (Parsed v)"
    using assms(1) re by (simp add: file_errors_def)
  have 2: "process_file W allowed f r =
      r\<lparr>console := console r @ map fail_line (root_errors f (Parsed v)),
        failedAny := True, fs_calls := fs_calls r @ [ReadFile f]\<rparr>"
    using assms(1) re by (simp add: process_file_def)
  have 3: "file_report W allowed f = map fail_line (root_errors f (Parsed v))"
    using assms(1) re by (simp add: file_report_cases)
  have 4: "file_report (W\<lparr>read_yaml := (read_yaml W)(f := x)\<rparr>) allowed g =
      file_report W allowed g" if "g \<noteq> f" for g x
    using that by (intro file_report_cong) simp_all
  show ?thesis
    using 1 2 3 4 by (simp add: re files_loop_console fail_line_def)
qed

text \<open>The empty file, followed by the file with an empty list of checks.\<close>

theorem root_shape_guard_witness:
  "file_errors (demo_world [lit ''rules/a/ruleset.yml'', lit ''rules/b/ruleset.yml''])
      {lit ''h1'', lit ''p''} (lit ''rules/b/ruleset.yml'') =
     [\<lparr>file = lit ''rules/b/ruleset.yml'', path = lit ''(root)'',
       message = lit ''Ruleset is empty (YAML parsed to null).''\<rparr>]
   \<and> console (files_loop (demo_world [lit ''rules/a/ruleset.yml'', lit ''rules/b/ruleset.yml''])
        {lit ''h1'', lit ''p''} [lit ''rules/b/ruleset.yml'', lit ''rules/a/ruleset.yml'']
        \<lparr>console = [], failedAny = False, fs_calls = []\<rparr>) =
     [Error (lit ''FAIL rules/b/ruleset.yml (root): Ruleset is empty (YAML parsed to null).''),
      Log (lit ''OK   semantic rules/a/ruleset.yml'')]"
  using root_shape_guard [of "demo_world [lit ''rules/a/ruleset.yml'', lit ''rules/b/ruleset.yml'']"
      "lit ''rules/b/ruleset.yml''" JNull "{lit ''h1'', lit ''p''}"
      "\<lparr>console = [], failedAny = False, fs_calls = []\<rparr>" "[]" "[lit ''rules/a/ruleset.yml'']"]
  by (simp add: demo_world_simps process_file_console file_report_cases demo_file_a)

subsection \<open>Two runs on the same input\<close>

text \<open>
  Claim C9. The errors and warnings that a run of the validator adds are the same
  whatever the state it starts in: whatever errors and warnings are already recorded,
  and whatever ids have been seen, the run appends to them exactly the two lists that a
  run on the same ruleset, selector table and file system gives from the initial state.
  So a second run on the same input, started where the first stopped, appends the lists
  of the first once more. In the script, the validation of a file that passed the tests
  on its root has the errors and the warnings of such a run from the initial state, and
  a file processed twice prints the same lines twice, whatever was printed and
  whichever file failed before.
\<close>

theorem validate_rerun_identical:
  "errors (validate E ruleset s) = errors s @ errors (validate E ruleset fresh)
   \<and> warnings (validate E ruleset s) = warnings s @ warnings (validate E ruleset fresh)
   \<and> errors (validate E ruleset (validate E ruleset fresh)) =
       errors (validate E ruleset fresh) @ errors (validate E ruleset fresh)
   \<and> warnings (validate E ruleset (validate E ruleset fresh)) =
       warnings (validate E ruleset fresh) @ warnings (validate E ruleset fresh)
   \<and> (root_errors f (read_yaml W f) = [] \<longrightarrow>
        errors (validate_file W allowed f) =
          errors (validate (file_env W allowed f) (parsed_value (read_yaml W f)) fresh) \<and>
        warnings (validate_file W allowed f) =
          warnings (validate (file_env W allowed f) (parsed_value (read_yaml W f)) fresh))
   \<and> console (process_file W allowed f (process_file W allowed f r)) =
       console r @ file_report W allowed f @ file_report W allowed f"
proof -
  have w: "warnings (validate E ruleset u) = warnings u @ warnings (validate E ruleset fresh)"
    for E ruleset u
    using validate_warnings [of E ruleset u] validate_warnings [of E ruleset fresh]
    by (simp add: fresh_def)
  have e: "errors (validate E ruleset u) = errors u @ errors (validate E ruleset fresh)"
    for E ruleset u
    by (rule validate_errors)
  have fe: "errors (validate_file W allowed f) = root_errors f (read_yaml W f) @
      errors (validate (file_env W allowed f) (parsed_value (read_yaml W f)) fresh)"
    unfolding validate_file_def by (subst e) simp
  have fw: "warnings (validate_file W allowed f) =
      warnings (validate (file_env W allowed f) (parsed_value (read_yaml W f)) fresh)"
    unfolding validate_file_def by (subst w) simp
  show ?thesis
    using e [of E ruleset s] e [of E ruleset "validate E ruleset fresh"]
      w [of E ruleset s] w [of E ruleset "validate E ruleset fresh"] fe fw
    by (simp add: process_file_console)
qed

text \<open>
  A ruleset with the language \<open>De\<close> followed by a space and two entries that have the
  id \<open>a\<close> and nothing else: a run gives eleven errors, among them the duplicate error
  of the second entry, and one warning; a second run, started in the state the first
  has left with the id \<open>a\<close> seen, gives the same eleven errors and the same warning.
  And the file with an empty list of checks, processed twice, prints its line twice.
\<close>

lemma rerun_example_errors:
  "map path (errors (validate demo_env
      (JObj [(lit ''language'', JStr (lit ''De '')),
             (lit ''checks'', JArr [id_entry (lit ''a''), id_entry (lit ''a'')])]) fresh)) =
     [lit ''checks[0].severity'', lit ''checks[0].dimension'', lit ''checks[0].penalty'',
      lit ''checks[0].message'', lit ''checks[0].rule'',
      lit ''checks[1].id'', lit ''checks[1].severity'', lit ''checks[1].dimension'',
      lit ''checks[1].penalty'', lit ''checks[1].message'', lit ''checks[1].rule'']"
  by (simp add: validator_defs id_entry_def isObject_def fresh_def demo_env_def str_eval Let_def)

lemma rerun_example_warnings:
  "warnings (validate demo_env
      (JObj [(lit ''language'', JStr (lit ''De '')),
             (lit ''checks'', JArr [id_entry (lit ''a''), id_entry (lit ''a'')])]) fresh) =
     [unusual_warning (lit ''rules/a/ruleset.yml'') (lit ''De '')]"
  by (simp add: validator_defs id_entry_def isObject_def fresh_def demo_env_def str_eval Let_def)

theorem validate_rerun_identical_witness:
  "map path (errors (validate demo_env
      (JObj [(lit ''language'', JStr (lit ''De '')),
             (lit ''checks'', JArr [id_entry (lit ''a''), id_entry (lit ''a'')])])
      (validate demo_env
         (JObj [(lit ''language'', JStr (lit ''De '')),
                (lit ''checks'', JArr [id_entry (lit ''a''), id_entry (lit ''a'')])]) fresh))) =
     [lit ''checks[0].severity'', lit ''checks[0].dimension'', lit ''checks[0].penalty'',
      lit ''checks[0].message'', lit ''checks[0].rule'',
      lit ''checks[1].id'', lit ''checks[1].severity'', lit ''checks[1].dimension'',
      lit ''checks[1].penalty'', lit ''checks[1].message'', lit ''checks[1].rule''] @
     [lit ''checks[0].severity'', lit ''checks[0].dimension'', lit ''checks[0].penalty'',
      lit ''checks[0].message'', lit ''checks[0].rule'',
      lit ''checks[1].id'', lit ''checks[1].severity'', lit ''checks[1].dimension'',
      lit ''checks[1].penalty'', lit ''checks[1].message'', lit ''checks[1].rule'']
   \<and> warnings (validate demo_env
      (JObj [(lit ''language'', JStr (lit ''De '')),
             (lit ''checks'', JArr [id_entry (lit ''a''), id_entry (lit ''a'')])])
      (validate demo_env
         (JObj [(lit ''language'', JStr (lit ''De '')),
                (lit ''checks'', JArr [id_entry (lit ''a''), id_entry (lit ''a'')])]) fresh)) =
     [unusual_warning (lit ''rules/a/ruleset.yml'') (lit ''De ''),
      unusual_warning (lit ''rules/a/ruleset.yml'') (lit ''De '')]
   \<and> errors (validate_file (demo_world []) {lit ''h1''} (lit ''rules/a/ruleset.yml'')) =
     errors (validate (file_env (demo_world []) {lit ''h1''} (lit ''rules/a/ruleset.yml''))
       (JObj [(lit ''checks'', JArr [])]) fresh)
   \<and> console (process_file (demo_world []) {lit ''h1''} (lit ''rules/a/ruleset.yml'')
        (process_file (demo_world []) {lit ''h1''} (lit ''rules/a/ruleset.yml'')
           \<lparr>console = [], failedAny = True, fs_calls = []\<rparr>)) =
     [Log (lit ''OK   semantic rules/a/ruleset.yml''), Log (lit ''OK   semantic rules/a/ruleset.yml'')]"
proof -
  let ?d = "JObj [(lit ''language'', JStr (lit ''De '')),
                  (lit ''checks'', JArr [id_entry (lit ''a''), id_entry (lit ''a'')])]"
  have "map path (errors (validate demo_env ?d (validate demo_env ?d fresh))) =
      map path (errors (validate demo_env ?d fresh)) @ map path (errors (validate demo_env ?d fresh))"
    using validate_rerun_identical [of demo_env ?d fresh, THEN conjunct2, THEN conjunct2,
        THEN conjunct1]
    by (simp only: map_append)
  moreover have "warnings (validate demo_env ?d (validate demo_env ?d fresh)) =
      warnings (validate demo_env ?d fresh) @ warnings (validate demo_env ?d fresh)"
    using validate_rerun_identical [of demo_env ?d fresh] by (simp only:)
  moreover have "errors (validate_file (demo_world []) {lit ''h1''} (lit ''rules/a/ruleset.yml'')) =
      errors (validate (file_env (demo_world []) {lit ''h1''} (lit ''rules/a/ruleset.yml''))
        (JObj [(lit ''checks'', JArr [])]) fresh)"
    using validate_rerun_identical [of demo_env ?d fresh "lit ''rules/a/ruleset.yml''"
        "demo_world []" "{lit ''h1''}"]
    by (simp add: demo_world_simps demo_file_a parsed_value_def)
  moreover have "console (process_file (demo_world []) {lit ''h1''} (lit ''rules/a/ruleset.yml'')
        (process_file (demo_world []) {lit ''h1''} (lit ''rules/a/ruleset.yml'')
           \<lparr>console = [], failedAny = True, fs_calls = []\<rparr>)) =
      [Log (lit ''OK   semantic rules/a/ruleset.yml''), Log (lit ''OK   semantic rules/a/ruleset.yml'')]"
    using validate_rerun_identical [of demo_env ?d fresh "lit ''rules/a/ruleset.yml''"
        "demo_world []" "{lit ''h1''}" "\<lparr>console = [], failedAny = True, fs_calls = []\<rparr>"]
    by (simp add: demo_world_simps file_report_cases demo_file_a)
  ultimately show ?thesis
    by (simp only: rerun_example_errors rerun_example_warnings append_Cons append_Nil simp_thms)
qed

end
